theory Spec2Isabelle
  imports Complex_Main "HOL-Library.Sublist" "HOL-Library.AList"
begin

section \<open>JavaScript values and strings\<close>

text \<open>
  The validator of \<^verbatim>\<open>lib/validator.js\<close> reads a ZIP archive and the parsed
  \<^verbatim>\<open>style.json\<close>, and pushes messages onto two arrays. The style is free-form JSON
  (the source types it \<^verbatim>\<open>any\<close>), so the model carries JavaScript values: what
  \<^verbatim>\<open>JSON.parse\<close> can return, and \<^verbatim>\<open>undefined\<close> for the result of reading a
  property that is not there. An object is the list of its own properties in
  enumeration order (the order of \<^verbatim>\<open>Object.entries\<close>), with distinct keys. A number
  is observed only through \<^verbatim>\<open>typeof\<close> and its truthiness.
\<close>

datatype json =
    JUndefined
  | JNull
  | JBool bool
  | JNumber real
  | JString string
  | JArray "json list"
  | JObject "(string \<times> json) list"

text \<open>What makes the promise returned by \<^verbatim>\<open>validate\<close> reject.\<close>

datatype rejection = TypeError | ReadError

definition bind_r :: "rejection + 'a \<Rightarrow> ('a \<Rightarrow> rejection + 'b) \<Rightarrow> rejection + 'b" where
  "bind_r m f = (case m of Inl e \<Rightarrow> Inl e | Inr v \<Rightarrow> f v)"

fun truthy :: "json \<Rightarrow> bool" where
  "truthy JUndefined = False"
| "truthy JNull = False"
| "truthy (JBool b) = b"
| "truthy (JNumber r) = (r \<noteq> 0)"
| "truthy (JString s) = (s \<noteq> [])"
| "truthy (JArray xs) = True"
| "truthy (JObject kvs) = True"

fun typeof :: "json \<Rightarrow> string" where
  "typeof JUndefined = ''undefined''"
| "typeof JNull = ''object''"
| "typeof (JBool b) = ''boolean''"
| "typeof (JNumber r) = ''number''"
| "typeof (JString s) = ''string''"
| "typeof (JArray xs) = ''object''"
| "typeof (JObject kvs) = ''object''"

fun isArray :: "json \<Rightarrow> bool" where
  "isArray (JArray xs) = True"
| "isArray v = False"

text \<open>
  Reading a property \<^verbatim>\<open>v.k\<close>. The validator reads only the names \<^verbatim>\<open>metadata\<close>,
  \<^verbatim>\<open>sources\<close>, \<^verbatim>\<open>glyphs\<close>, \<^verbatim>\<open>sprite\<close>, \<^verbatim>\<open>tiles\<close>, \<^verbatim>\<open>url\<close> and the three
  \<^verbatim>\<open>smp:\<close> keys; none of them is a property of arrays, strings, numbers or booleans,
  which therefore give \<^verbatim>\<open>undefined\<close>. On \<^verbatim>\<open>null\<close> and \<^verbatim>\<open>undefined\<close> the read
  throws a TypeError: \<open>getProp\<close> is the read of a value that may be one of them,
  \<open>member\<close> the read of a value that is known not to be.
\<close>

fun member :: "json \<Rightarrow> string \<Rightarrow> json" where
  "member (JObject kvs) k = (case map_of kvs k of None \<Rightarrow> JUndefined | Some v \<Rightarrow> v)"
| "member v k = JUndefined"

definition getProp :: "json \<Rightarrow> string \<Rightarrow> rejection + json" where
  "getProp v k = (if v = JNull \<or> v = JUndefined then Inl TypeError else Inr (member v k))"

fun elements :: "json \<Rightarrow> json list" where
  "elements (JArray xs) = xs"
| "elements v = []"

fun chars :: "json \<Rightarrow> string" where
  "chars (JString s) = s"
| "chars v = []"

text \<open>Decimal rendering of an array index or a tile coordinate (\<^verbatim>\<open>String(n)\<close>).\<close>

definition digit_char :: "nat \<Rightarrow> char" where
  "digit_char d = char_of (48 + d)"

fun show_nat :: "nat \<Rightarrow> string" where
  "show_nat n = (if n < 10 then [digit_char n] else show_nat (n div 10) @ [digit_char (n mod 10)])"

declare show_nat.simps [simp del]

text \<open>
  \<^verbatim>\<open>Object.entries(v)\<close>: the properties of an object, the indexed elements of an
  array, the indexed characters of a string, nothing for a number or a boolean.
\<close>

fun object_entries :: "json \<Rightarrow> (string \<times> json) list" where
  "object_entries (JObject kvs) = kvs"
| "object_entries (JArray xs) = zip (map show_nat [0..<length xs]) xs"
| "object_entries (JString s) = zip (map show_nat [0..<length s]) (map (\<lambda>c. JString [c]) s)"
| "object_entries v = []"

text \<open>\<^verbatim>\<open>s.indexOf(pat)\<close>, with \<open>None\<close> for \<^verbatim>\<open>-1\<close>.\<close>

fun indexOf :: "string \<Rightarrow> string \<Rightarrow> nat option" where
  "indexOf [] pat = (if pat = [] then Some 0 else None)"
| "indexOf (c # cs) pat =
     (if prefix pat (c # cs) then Some 0 else map_option Suc (indexOf cs pat))"

subsection \<open>String.prototype.trim\<close>

text \<open>
  The text of an entry is held as the string that \<^verbatim>\<open>Buffer.toString('utf8')\<close>
  yields, written as its UTF-8 bytes, so a character beyond ASCII is a sequence of
  \<^typ>\<open>char\<close>. \<^verbatim>\<open>trim\<close> removes JavaScript white space and line terminators from
  both ends: U+0009 to U+000D, U+0020, U+00A0, U+1680, U+2000 to U+200A, U+2028,
  U+2029, U+202F, U+205F, U+3000 and U+FEFF.
\<close>

definition js_whitespace :: "string list" where
  "js_whitespace =
    [[CHR 0x09], [CHR 0x0A], [CHR 0x0B], [CHR 0x0C], [CHR 0x0D], [CHR 0x20],
     [CHR 0xC2, CHR 0xA0],
     [CHR 0xE1, CHR 0x9A, CHR 0x80],
     [CHR 0xE2, CHR 0x80, CHR 0x80], [CHR 0xE2, CHR 0x80, CHR 0x81],
     [CHR 0xE2, CHR 0x80, CHR 0x82], [CHR 0xE2, CHR 0x80, CHR 0x83],
     [CHR 0xE2, CHR 0x80, CHR 0x84], [CHR 0xE2, CHR 0x80, CHR 0x85],
     [CHR 0xE2, CHR 0x80, CHR 0x86], [CHR 0xE2, CHR 0x80, CHR 0x87],
     [CHR 0xE2, CHR 0x80, CHR 0x88], [CHR 0xE2, CHR 0x80, CHR 0x89],
     [CHR 0xE2, CHR 0x80, CHR 0x8A],
     [CHR 0xE2, CHR 0x80, CHR 0xA8], [CHR 0xE2, CHR 0x80, CHR 0xA9],
     [CHR 0xE2, CHR 0x80, CHR 0xAF],
     [CHR 0xE2, CHR 0x81, CHR 0x9F],
     [CHR 0xE3, CHR 0x80, CHR 0x80],
     [CHR 0xEF, CHR 0xBB, CHR 0xBF]]"

text \<open>The rest of \<open>s\<close> after one leading sequence out of \<open>ws\<close>, if \<open>s\<close> starts with one.\<close>

fun strip_one :: "string list \<Rightarrow> string \<Rightarrow> string option" where
  "strip_one [] s = None"
| "strip_one (w # ws) s =
     (if w \<noteq> [] \<and> prefix w s then Some (drop (length w) s) else strip_one ws s)"

function strip_leading :: "string list \<Rightarrow> string \<Rightarrow> string" where
  "strip_leading ws s = (case strip_one ws s of None \<Rightarrow> s | Some r \<Rightarrow> strip_leading ws r)"
  by pat_completeness auto
termination
proof (relation "measure (\<lambda>(ws, s). length s)")
  show "wf (measure (\<lambda>(ws, s). length s))"
    by simp
next
  fix ws :: "string list" and s r :: string
  assume "strip_one ws s = Some r"
  then have "length r < length s"
    by (induction ws) (auto split: if_splits simp: prefix_def)
  then show "((ws, r), (ws, s)) \<in> measure (\<lambda>(ws, s). length s)"
    by simp
qed

declare strip_leading.simps [simp del]

definition trimStart :: "string \<Rightarrow> string" where
  "trimStart s = strip_leading js_whitespace s"

definition trimEnd :: "string \<Rightarrow> string" where
  "trimEnd s = rev (strip_leading (map rev js_whitespace) (rev s))"

definition trim :: "string \<Rightarrow> string" where
  "trim s = trimEnd (trimStart s)"

subsection \<open>The version grammar\<close>

definition is_digit :: "char \<Rightarrow> bool" where
  "is_digit c = (c \<in> set ''0123456789'')"

text \<open>
  \<^verbatim>\<open>version.match(/^(\d+)\.\d+$/)\<close>: the first capture group when the whole string is
  one or more digits, a dot, one or more digits. The greedy \<^verbatim>\<open>\d+\<close> takes every
  leading digit, and giving one back cannot help, since a dot must follow.
\<close>

definition version_match :: "string \<Rightarrow> string option" where
  "version_match version =
     (let major = takeWhile is_digit version; rest = dropWhile is_digit version
      in case rest of
           [] \<Rightarrow> None
         | c # minor \<Rightarrow>
             if major \<noteq> [] \<and> c = CHR ''.'' \<and> minor \<noteq> [] \<and> list_all is_digit minor
             then Some major else None)"

text \<open>\<^verbatim>\<open>parseInt(digits, 10)\<close> on a string of decimal digits.\<close>

definition parseInt :: "string \<Rightarrow> nat" where
  "parseInt ds = foldl (\<lambda>n c. 10 * n + (of_char c - 48)) 0 ds"

section \<open>The archive and the collaborators of the validator\<close>

text \<open>
  An entry of the archive: its name and what reading its stream gives, \<open>Inr\<close> the
  text or \<open>Inl\<close> the message of the error thrown while opening or reading it.
\<close>

record zip_entry =
  filename :: string
  content :: "string + string"

text \<open>
  \<^verbatim>\<open>open(filepath)\<close> of yauzl-promise either throws an error, with its \<^verbatim>\<open>code\<close>
  (if it has one) and its message, or gives a handle whose entries are then iterated;
  \<open>Opened None\<close> is a handle whose iteration throws.
\<close>

datatype open_result =
    OpenError "string option" string
  | Opened "zip_entry list option"

text \<open>
  The collaborators: the file system, \<^verbatim>\<open>JSON.parse\<close> behind
  \<^verbatim>\<open>json(stream)\<close> (\<open>Inl\<close> the message of its SyntaxError), the style validator
  of maplibre-gl-style-spec, which returns a list of messages, and the rendering of a
  number inside a template literal (\<^verbatim>\<open>${major}\<close> is the text of the double that
  \<^verbatim>\<open>parseInt\<close> returns, which is the decimal numeral only up to \<open>2 ^ 53\<close>, so the
  rendering is left to the environment).
\<close>

record env =
  fs_open :: "string \<Rightarrow> open_result"
  parse_json :: "string \<Rightarrow> string + json"
  validateStyleMin :: "json \<Rightarrow> string list"
  String_of_number :: "nat \<Rightarrow> string"

text \<open>
  Modelled from the spec: \<^verbatim>\<open>lib/utils/templates.js\<close> is not among the sources; the
  three constants the validator imports from it are the fixed paths and the internal
  URI prefix of the container format.
\<close>

definition VERSION_FILE :: string where
  "VERSION_FILE = ''VERSION''"

definition STYLE_FILE :: string where
  "STYLE_FILE = ''style.json''"

definition URI_BASE :: string where
  "URI_BASE = ''smp://maps.v1/''"

text \<open>Major version(s) supported by this implementation.\<close>

definition SUPPORTED_MAJOR_VERSIONS :: "nat list" where
  "SUPPORTED_MAJOR_VERSIONS = [1]"

text \<open>\<^verbatim>\<open>xs.join(', ')\<close> on the rendered numbers.\<close>

fun join :: "string \<Rightarrow> string list \<Rightarrow> string" where
  "join sep [] = []"
| "join sep [x] = x"
| "join sep (x # y # ys) = x @ sep @ join sep (y # ys)"

section \<open>The validator\<close>

record msgs =
  errors :: "string list"
  warnings :: "string list"

record validation_result = msgs +
  valid :: bool

definition no_msgs :: msgs where
  "no_msgs = \<lparr>errors = [], warnings = []\<rparr>"

definition push_error :: "string \<Rightarrow> msgs \<Rightarrow> msgs" where
  "push_error m st = st\<lparr>errors := errors st @ [m]\<rparr>"

definition push_warning :: "string \<Rightarrow> msgs \<Rightarrow> msgs" where
  "push_warning m st = st\<lparr>warnings := warnings st @ [m]\<rparr>"

definition result :: "msgs \<Rightarrow> string \<Rightarrow> validation_result" where
  "result st error =
     \<lparr>errors = errors st @ [error], warnings = warnings st, valid = False\<rparr>"

definition dq :: string where
  "dq = [CHR 0x22]"

text \<open>
  The \<^verbatim>\<open>Map\<close> of entries: \<^verbatim>\<open>entries.set(entry.filename, entry)\<close> for each entry in
  turn, a later entry of the same name replacing the earlier one in place.
\<close>

definition build_entries :: "zip_entry list \<Rightarrow> (string \<times> zip_entry) list" where
  "build_entries zs = foldl (\<lambda>m e. AList.update (filename e) e m) [] zs"

definition keys :: "(string \<times> zip_entry) list \<Rightarrow> string list" where
  "keys entries = map fst entries"

definition has :: "(string \<times> zip_entry) list \<Rightarrow> string \<Rightarrow> bool" where
  "has entries k = (k \<in> set (keys entries))"

subsection \<open>Level 2: the VERSION file\<close>

text \<open>
  A missing entry is a warning. Reading the entry is outside any \<^verbatim>\<open>catch\<close>: when
  it throws, \<^verbatim>\<open>validate\<close> rejects. The text is trimmed before it is matched, and
  the major version read from the match is looked up among the supported ones.
\<close>

definition level2 :: "env \<Rightarrow> (string \<times> zip_entry) list \<Rightarrow> msgs \<Rightarrow> rejection + msgs" where
  "level2 E entries st =
     (case map_of entries VERSION_FILE of
        None \<Rightarrow> Inr (push_warning ''Missing VERSION file (assuming version 1.0)'' st)
      | Some versionEntry \<Rightarrow>
          (case content versionEntry of
             Inl message \<Rightarrow> Inl ReadError
           | Inr text \<Rightarrow>
               (let version = trim text in
                case version_match version of
                  None \<Rightarrow>
                    Inr (push_error
                      (''Invalid version format: '' @ dq @ version @ dq @
                       '' (expected MAJOR.MINOR)'') st)
                | Some majorMatch \<Rightarrow>
                    (let major = parseInt majorMatch in
                     if major \<notin> set SUPPORTED_MAJOR_VERSIONS
                     then Inr (push_error
                       (''Unsupported major version: '' @ String_of_number E major @
                        '' (supported: '' @
                        join '', '' (map (String_of_number E) SUPPORTED_MAJOR_VERSIONS) @
                        '')'') st)
                     else Inr st))))"

subsection \<open>Level 4: the messages of the style validator\<close>

definition level4 :: "env \<Rightarrow> json \<Rightarrow> msgs \<Rightarrow> msgs" where
  "level4 E style st =
     foldl (\<lambda>s e. push_error (''style.json: '' @ e) s) st (validateStyleMin E style)"

subsection \<open>Level 5: the SMP metadata\<close>

text \<open>
  \<^verbatim>\<open>smp:bounds\<close> must be an array of length 4; its four elements are then
  destructured and each must be a number.
\<close>

definition check_bounds :: "json \<Rightarrow> msgs \<Rightarrow> msgs" where
  "check_bounds bounds st =
     (if \<not> isArray bounds \<or> length (elements bounds) \<noteq> 4
      then push_error ''Missing or invalid smp:bounds in style.json metadata'' st
      else
        (let w = elements bounds ! 0; s = elements bounds ! 1;
             e = elements bounds ! 2; n = elements bounds ! 3
         in if typeof w \<noteq> ''number'' \<or> typeof s \<noteq> ''number'' \<or>
               typeof e \<noteq> ''number'' \<or> typeof n \<noteq> ''number''
            then push_error ''smp:bounds values must be numbers'' st
            else st))"

text \<open>
  The checks on \<^verbatim>\<open>metadata\<close>, which is \<^verbatim>\<open>style.metadata || {}\<close> and so neither
  \<^verbatim>\<open>null\<close> nor \<^verbatim>\<open>undefined\<close>.
\<close>

definition check_metadata :: "json \<Rightarrow> msgs \<Rightarrow> msgs" where
  "check_metadata metadata st =
     (let st1 = check_bounds (member metadata ''smp:bounds'') st;
          st2 = (if typeof (member metadata ''smp:maxzoom'') \<noteq> ''number''
                 then push_error ''Missing or invalid smp:maxzoom in style.json metadata'' st1
                 else st1);
          sourceFolders = member metadata ''smp:sourceFolders''
      in if truthy sourceFolders \<and> typeof sourceFolders \<noteq> ''object''
         then push_warning ''Invalid smp:sourceFolders in style.json metadata'' st2
         else st2)"

definition level5 :: "json \<Rightarrow> msgs \<Rightarrow> rejection + msgs" where
  "level5 style st =
     bind_r (getProp style ''metadata'') (\<lambda>m.
     Inr (check_metadata (if truthy m then m else JObject []) st))"

subsection \<open>Level 6: tile files of each source\<close>

text \<open>The loop over \<^verbatim>\<open>entries.keys()\<close> that stops at the first match.\<close>

fun hasTiles :: "string \<Rightarrow> string list \<Rightarrow> bool" where
  "hasTiles tilePrefix [] = False"
| "hasTiles tilePrefix (f # fs) = (if prefix tilePrefix f then True else hasTiles tilePrefix fs)"

definition tile_error :: "string \<Rightarrow> string \<Rightarrow> string" where
  "tile_error sourceId tilePrefix =
     ''No tile files found for source '' @ dq @ sourceId @ dq @
     '' (expected under '' @ tilePrefix @ '')''"

text \<open>The body of the loop over \<^verbatim>\<open>source.tiles\<close>.\<close>

definition check_tile :: "string list \<Rightarrow> string \<Rightarrow> json \<Rightarrow> msgs \<Rightarrow> msgs" where
  "check_tile ks sourceId tileUrl st =
     (if typeof tileUrl = ''string'' \<and> prefix URI_BASE (chars tileUrl) then
        (let templatePath = drop (length URI_BASE) (chars tileUrl) in
         case indexOf templatePath ''{z}'' of
           None \<Rightarrow> st
         | Some prefixEnd \<Rightarrow>
             (let tilePrefix = take prefixEnd templatePath in
              if \<not> hasTiles tilePrefix ks
              then push_error (tile_error sourceId tilePrefix) st
              else st))
      else st)"

fun for_tiles :: "string list \<Rightarrow> string \<Rightarrow> json list \<Rightarrow> msgs \<Rightarrow> msgs" where
  "for_tiles ks sourceId [] st = st"
| "for_tiles ks sourceId (tileUrl # rest) st =
     for_tiles ks sourceId rest (check_tile ks sourceId tileUrl st)"

fun for_sources :: "string list \<Rightarrow> (string \<times> json) list \<Rightarrow> msgs \<Rightarrow> rejection + msgs" where
  "for_sources ks [] st = Inr st"
| "for_sources ks ((sourceId, source) # rest) st =
     bind_r (getProp source ''tiles'') (\<lambda>tiles.
     for_sources ks rest
       (if truthy tiles \<and> isArray tiles
        then for_tiles ks sourceId (elements tiles) st
        else st))"

definition level6 :: "string list \<Rightarrow> json \<Rightarrow> msgs \<Rightarrow> rejection + msgs" where
  "level6 ks style st =
     bind_r (getProp style ''sources'') (\<lambda>sources.
     if truthy sources then for_sources ks (object_entries sources) st else Inr st)"

subsection \<open>Level 7: glyph files\<close>

fun hasGlyphs :: "string \<Rightarrow> string list \<Rightarrow> bool" where
  "hasGlyphs glyphPrefix [] = False"
| "hasGlyphs glyphPrefix (f # fs) =
     (if (if glyphPrefix \<noteq> [] then prefix glyphPrefix f else suffix ''.pbf.gz'' f)
      then True else hasGlyphs glyphPrefix fs)"

definition level7 :: "string list \<Rightarrow> json \<Rightarrow> msgs \<Rightarrow> rejection + msgs" where
  "level7 ks style st =
     bind_r (getProp style ''glyphs'') (\<lambda>glyphs.
     if typeof glyphs = ''string'' \<and> prefix URI_BASE (chars glyphs) then
       (let glyphTemplate = drop (length URI_BASE) (chars glyphs);
            glyphPrefix = (case indexOf glyphTemplate ''{fontstack}'' of
                             None \<Rightarrow> []
                           | Some prefixEnd \<Rightarrow>
                               if prefixEnd > 0 then take prefixEnd glyphTemplate else [])
        in if \<not> hasGlyphs glyphPrefix ks
           then Inr (push_error ''style.json references glyphs but no glyph files found'' st)
           else Inr st)
     else Inr st)"

subsection \<open>Level 8: sprite files\<close>

definition validateSpriteFiles :: "(string \<times> zip_entry) list \<Rightarrow> string \<Rightarrow> msgs \<Rightarrow> msgs" where
  "validateSpriteFiles entries basePath st =
     (let jsonPath = basePath @ ''.json'';
          pngPath = basePath @ ''.png'';
          json2xPath = basePath @ ''@2x.json'';
          png2xPath = basePath @ ''@2x.png'';
          st1 = (if \<not> has entries jsonPath
                 then push_error (''Missing sprite file: '' @ jsonPath) st else st);
          st2 = (if \<not> has entries pngPath
                 then push_error (''Missing sprite file: '' @ pngPath) st1 else st1)
      in if \<not> has entries json2xPath \<or> \<not> has entries png2xPath
         then push_warning
                (''Missing @2x sprite for '' @ dq @ basePath @ dq @
                 '' (recommended but not required)'') st2
         else st2)"

text \<open>
  The loop \<^verbatim>\<open>for (const { url } of style.sprite)\<close>: destructuring an element reads
  its \<^verbatim>\<open>url\<close>, which throws on \<^verbatim>\<open>null\<close>.
\<close>

fun for_sprites :: "(string \<times> zip_entry) list \<Rightarrow> json list \<Rightarrow> msgs \<Rightarrow> rejection + msgs" where
  "for_sprites entries [] st = Inr st"
| "for_sprites entries (el # rest) st =
     bind_r (getProp el ''url'') (\<lambda>url.
     for_sprites entries rest
       (if typeof url = ''string'' \<and> prefix URI_BASE (chars url)
        then validateSpriteFiles entries (drop (length URI_BASE) (chars url)) st
        else st))"

definition level8 :: "(string \<times> zip_entry) list \<Rightarrow> json \<Rightarrow> msgs \<Rightarrow> rejection + msgs" where
  "level8 entries style st =
     bind_r (getProp style ''sprite'') (\<lambda>sprite.
     if typeof sprite = ''string'' \<and> prefix URI_BASE (chars sprite)
     then Inr (validateSpriteFiles entries (drop (length URI_BASE) (chars sprite)) st)
     else if isArray sprite then for_sprites entries (elements sprite) st
     else Inr st)"

subsection \<open>validate\<close>

text \<open>
  Reading and parsing \<^verbatim>\<open>style.json\<close> inside the \<^verbatim>\<open>try\<close> of level 4: \<open>Inl\<close>
  the message of whatever was thrown.
\<close>

definition read_style :: "env \<Rightarrow> zip_entry \<Rightarrow> string + json" where
  "read_style E styleEntry =
     (case content styleEntry of
        Inl message \<Rightarrow> Inl message
      | Inr text \<Rightarrow> parse_json E text)"

text \<open>Levels 4 to 8, on the parsed style.\<close>

definition check_style ::
  "env \<Rightarrow> (string \<times> zip_entry) list \<Rightarrow> json \<Rightarrow> msgs \<Rightarrow> rejection + msgs" where
  "check_style E entries style st =
     bind_r (level5 style (level4 E style st)) (\<lambda>st5.
     bind_r (level6 (keys entries) style st5) (\<lambda>st6.
     bind_r (level7 (keys entries) style st6) (\<lambda>st7.
     level8 entries style st7)))"

text \<open>
  Levels 3 to 8 and the result, given the messages of level 2: the early returns when
  \<^verbatim>\<open>style.json\<close> is missing or cannot be read and parsed, else the checks of the
  style and \<^verbatim>\<open>valid: errors.length === 0\<close>.
\<close>

definition validate_style ::
  "env \<Rightarrow> (string \<times> zip_entry) list \<Rightarrow> msgs \<Rightarrow> rejection + validation_result" where
  "validate_style E entries st2 =
     (case map_of entries STYLE_FILE of
        None \<Rightarrow> Inr (result st2 ''Missing style.json'')
      | Some styleEntry \<Rightarrow>
          (case read_style E styleEntry of
             Inl message \<Rightarrow> Inr (result st2 (''style.json is not valid JSON: '' @ message))
           | Inr style \<Rightarrow>
               bind_r (check_style E entries style st2) (\<lambda>st.
               Inr \<lparr>errors = errors st, warnings = warnings st,
                    valid = (length (errors st) = 0)\<rparr>)))"

text \<open>
  The body of the outer \<^verbatim>\<open>try\<close>, on the entries of an opened archive. The
  \<^verbatim>\<open>finally\<close> block closes the handle and leaves the result as it is.
\<close>

definition validate_entries :: "env \<Rightarrow> zip_entry list \<Rightarrow> rejection + validation_result" where
  "validate_entries E zs =
     (let entries = build_entries zs in
      bind_r (level2 E entries no_msgs) (validate_style E entries))"

definition validate :: "env \<Rightarrow> string \<Rightarrow> rejection + validation_result" where
  "validate E filepath =
     (case fs_open E filepath of
        OpenError code message \<Rightarrow>
          if code = Some ''ENOENT''
          then Inr (result no_msgs (''File not found: '' @ filepath))
          else Inr (result no_msgs (''Not a valid ZIP file: '' @ message))
      | Opened None \<Rightarrow> Inl ReadError
      | Opened (Some zs) \<Rightarrow> validate_entries E zs)"

section \<open>Utilities known from the specification and their tests\<close>

subsection \<open>Classifying a failed open\<close>

text \<open>
  Modelled from the spec: \<^verbatim>\<open>lib/utils/errors.js\<close> is not among the sources.
  \<^verbatim>\<open>isFileNotThereError\<close> takes what was thrown; the specification counts
  \<^verbatim>\<open>ENOENT\<close> and \<^verbatim>\<open>EPERM\<close> as not found, and the tests add that any other code and
  any value that is not an Error give false.
\<close>

datatype thrown =
    ErrorWith "string option" string
  | NotAnError

fun isFileNotThereError :: "thrown \<Rightarrow> bool" where
  "isFileNotThereError (ErrorWith code message) = (code = Some ''ENOENT'' \<or> code = Some ''EPERM'')"
| "isFileNotThereError NotAnError = False"

subsection \<open>Mapbox URLs\<close>








subsection \<open>Tile URLs\<close>

text \<open>
  Modelled from the spec: \<^verbatim>\<open>lib/utils/geo.js\<close> is not among the sources.
  \<^verbatim>\<open>getTileUrl\<close> is the specification's renderTileUrl (section 4.1): it picks the
  template at index \<open>(x + y) mod length\<close> and substitutes the placeholders
  \<^verbatim>\<open>{z}\<close>, \<^verbatim>\<open>{x}\<close>, \<^verbatim>\<open>{y}\<close>, \<^verbatim>\<open>{quadkey}\<close> and \<^verbatim>\<open>{prefix}\<close>. The quadkey has one
  base-4 digit per zoom level, the highest bit first, \<open>y\<close> weighted 2 and \<open>x\<close>
  weighted 1; the prefix is \<open>(x + y) mod 16\<close> written as two hexadecimal characters.
  An empty list of templates has no template to pick: \<open>None\<close>.
\<close>

datatype scheme = XYZ | TMS

record TileCoord =
  coord_x :: nat
  coord_y :: nat
  coord_z :: nat
  coord_scheme :: scheme

definition show_int :: "int \<Rightarrow> string" where
  "show_int i = (if i < 0 then ''-'' @ show_nat (nat (- i)) else show_nat (nat i))"

definition getQuadkey :: "nat \<Rightarrow> nat \<Rightarrow> nat \<Rightarrow> string" where
  "getQuadkey x y z =
     map (\<lambda>i. digit_char ((x div 2 ^ i) mod 2 + 2 * ((y div 2 ^ i) mod 2))) (rev [0..<z])"

definition hex_char :: "nat \<Rightarrow> char" where
  "hex_char d = (if d < 10 then char_of (48 + d) else char_of (87 + d))"

definition tile_y :: "TileCoord \<Rightarrow> int" where
  "tile_y c =
     (if coord_scheme c = TMS then 2 ^ coord_z c - int (coord_y c) - 1 else int (coord_y c))"

definition tile_variables :: "TileCoord \<Rightarrow> (string \<times> string) list" where
  "tile_variables c =
     [(''{z}'', show_nat (coord_z c)),
      (''{x}'', show_nat (coord_x c)),
      (''{y}'', show_int (tile_y c)),
      (''{quadkey}'', getQuadkey (coord_x c) (coord_y c) (coord_z c)),
      (''{prefix}'', [CHR ''0'', hex_char ((coord_x c + coord_y c) mod 16)])]"

text \<open>
  One pass over the template from left to right: where a placeholder starts, its value
  is written and the placeholder skipped (\<open>skip\<close> counts what is left of it).
\<close>

fun substitute :: "(string \<times> string) list \<Rightarrow> nat \<Rightarrow> string \<Rightarrow> string" where
  "substitute vars skip [] = []"
| "substitute vars (Suc k) (c # cs) = substitute vars k cs"
| "substitute vars 0 (c # cs) =
     (case find (\<lambda>(p, v). prefix p (c # cs)) vars of
        Some (p, v) \<Rightarrow> v @ substitute vars (length p - 1) cs
      | None \<Rightarrow> c # substitute vars 0 cs)"

definition getTileUrl :: "string list \<Rightarrow> TileCoord \<Rightarrow> string option" where
  "getTileUrl urls c =
     (if urls = [] then None
      else Some (substitute (tile_variables c) 0
                   (urls ! ((coord_x c + coord_y c) mod length urls))))"

section \<open>What the levels report\<close>

text \<open>
  The messages of each level, written as lists: the metadata that level 5 checks, the
  internal tile templates of level 6 (for every source in the order of
  \<^verbatim>\<open>Object.entries\<close> and every element of its \<^verbatim>\<open>tiles\<close> array that is a string
  beginning with the internal URI prefix and containing \<^verbatim>\<open>{z}\<close>: the source id and the
  path before \<^verbatim>\<open>{z}\<close>), the internal sprites of level 8 (the base path of the string
  form, or of the \<^verbatim>\<open>url\<close> of each array element), and what is reported for them given
  the names of the archive's entries.
\<close>

definition metadata_of :: "json \<Rightarrow> json" where
  "metadata_of style =
     (if truthy (member style ''metadata'') then member style ''metadata'' else JObject [])"

definition tile_prefix :: "json \<Rightarrow> string option" where
  "tile_prefix tileUrl =
     (if typeof tileUrl = ''string'' \<and> prefix URI_BASE (chars tileUrl)
      then map_option (\<lambda>prefixEnd. take prefixEnd (drop (length URI_BASE) (chars tileUrl)))
             (indexOf (drop (length URI_BASE) (chars tileUrl)) ''{z}'')
      else None)"

definition source_templates :: "(string \<times> json) list \<Rightarrow> (string \<times> string) list" where
  "source_templates sources =
     concat (map (\<lambda>(sourceId, source).
        map (Pair sourceId) (List.map_filter tile_prefix (elements (member source ''tiles''))))
        sources)"

definition internal_templates :: "json \<Rightarrow> (string \<times> string) list" where
  "internal_templates style =
     (if truthy (member style ''sources'')
      then source_templates (object_entries (member style ''sources''))
      else [])"

definition missing_tiles :: "string list \<Rightarrow> (string \<times> string) list \<Rightarrow> string list" where
  "missing_tiles names templates =
     map (\<lambda>(sourceId, tilePrefix). tile_error sourceId tilePrefix)
       (filter (\<lambda>(sourceId, tilePrefix). \<not> (\<exists>f \<in> set names. prefix tilePrefix f)) templates)"

definition element_sprites :: "json list \<Rightarrow> string list" where
  "element_sprites els =
     map (\<lambda>el. drop (length URI_BASE) (chars (member el ''url'')))
       (filter (\<lambda>el. typeof (member el ''url'') = ''string'' \<and>
                      prefix URI_BASE (chars (member el ''url''))) els)"

definition internal_sprites :: "json \<Rightarrow> string list" where
  "internal_sprites style =
     (if typeof (member style ''sprite'') = ''string'' \<and>
         prefix URI_BASE (chars (member style ''sprite''))
      then [drop (length URI_BASE) (chars (member style ''sprite''))]
      else element_sprites (elements (member style ''sprite'')))"

definition sprite_errors :: "string list \<Rightarrow> string \<Rightarrow> string list" where
  "sprite_errors names basePath =
     (if basePath @ ''.json'' \<in> set names then []
      else [''Missing sprite file: '' @ basePath @ ''.json'']) @
     (if basePath @ ''.png'' \<in> set names then []
      else [''Missing sprite file: '' @ basePath @ ''.png''])"

definition sprite_warnings :: "string list \<Rightarrow> string \<Rightarrow> string list" where
  "sprite_warnings names basePath =
     (if basePath @ ''@2x.json'' \<in> set names \<and> basePath @ ''@2x.png'' \<in> set names then []
      else [''Missing @2x sprite for '' @ dq @ basePath @ dq @
            '' (recommended but not required)''])"

text \<open>The messages of \<open>a\<close> followed by those of \<open>b\<close>.\<close>

definition append_msgs :: "msgs \<Rightarrow> msgs \<Rightarrow> msgs" where
  "append_msgs a b = \<lparr>errors = errors a @ errors b, warnings = warnings a @ warnings b\<rparr>"

definition map_r :: "('a \<Rightarrow> 'b) \<Rightarrow> rejection + 'a \<Rightarrow> rejection + 'b" where
  "map_r f m = (case m of Inl e \<Rightarrow> Inl e | Inr v \<Rightarrow> Inr (f v))"

text \<open>
  A result with the messages of \<open>st\<close> before its own; it stays valid only if \<open>st\<close>
  holds no error.
\<close>

definition with_msgs :: "msgs \<Rightarrow> validation_result \<Rightarrow> validation_result" where
  "with_msgs st r =
     \<lparr>errors = errors st @ errors r, warnings = warnings st @ warnings r,
      valid = (errors st = [] \<and> valid r)\<rparr>"

section \<open>Concrete archives\<close>

text \<open>
  An environment whose file system gives the same answer for every path, whose parser
  gives the same answer for every text and whose style validator returns the same
  messages for every style; numbers are rendered in decimal.
\<close>

definition env_of :: "open_result \<Rightarrow> string + json \<Rightarrow> string list \<Rightarrow> env" where
  "env_of opened parsed style_msgs =
     \<lparr>fs_open = (\<lambda>filepath. opened), parse_json = (\<lambda>text. parsed),
      validateStyleMin = (\<lambda>style. style_msgs), String_of_number = show_nat\<rparr>"

definition entry_of :: "string \<Rightarrow> string \<Rightarrow> zip_entry" where
  "entry_of name text = \<lparr>filename = name, content = Inr text\<rparr>"

definition smp_metadata :: "(string \<times> json) list" where
  "smp_metadata =
     [(''smp:bounds'', JArray [JNumber (- 180), JNumber (- 85), JNumber 180, JNumber 85]),
      (''smp:maxzoom'', JNumber 5),
      (''smp:sourceFolders'', JObject [])]"

definition style_with :: "(string \<times> json) list \<Rightarrow> (string \<times> json) list \<Rightarrow> json" where
  "style_with metadata others =
     JObject ([(''version'', JNumber 8), (''layers'', JArray []),
               (''metadata'', JObject metadata)] @ others)"

definition archive_of :: "string option \<Rightarrow> string list \<Rightarrow> zip_entry list" where
  "archive_of version names =
     (case version of None \<Rightarrow> [] | Some text \<Rightarrow> [entry_of ''VERSION'' text]) @
     [entry_of ''style.json'' ''{}''] @ map (\<lambda>name. entry_of name ''data'') names"

definition archive_env :: "zip_entry list \<Rightarrow> string + json \<Rightarrow> env" where
  "archive_env zs parsed = env_of (Opened (Some zs)) parsed []"

definition tiles_style :: json where
  "tiles_style =
     style_with smp_metadata
       [(''sources'', JObject [(''test'', JObject
           [(''type'', JString ''vector''),
            (''tiles'', JArray [JString ''smp://maps.v1/s/0/{z}/{x}/{y}.mvt.gz''])])])]"

definition sprite_style :: json where
  "sprite_style =
     style_with smp_metadata
       [(''sources'', JObject []), (''sprite'', JString ''smp://maps.v1/sprites/default/sprite'')]"

definition sprite_archive :: "zip_entry list" where
  "sprite_archive =
     archive_of (Some (''1.0'' @ [CHR 0x0A]))
       [''sprites/default/sprite.json'', ''sprites/default/sprite.png'']"

definition plain_style :: json where
  "plain_style = style_with smp_metadata [(''sources'', JObject [])]"

definition bad_bounds_style :: json where
  "bad_bounds_style =
     style_with
       [(''smp:bounds'', JArray [JString ''w'', JString ''s'', JString ''e'', JString ''n'']),
        (''smp:maxzoom'', JNumber 5)]
       [(''sources'', JObject [])]"

definition no_bounds_style :: json where
  "no_bounds_style =
     style_with [(''smp:maxzoom'', JNumber 5), (''smp:sourceFolders'', JString ''folders'')]
       [(''sources'', JObject [])]"

definition padded_archive :: "zip_entry list" where
  "padded_archive =
     [\<lparr>filename = ''VERSION'',
       content = Inr (concat [[CHR 0x20]] @ ''1'' @ ''.'' @ ''0'' @
                      concat [[CHR 0x0D], [CHR 0x0A], [CHR 0x0A]])\<rparr>,
      entry_of ''style.json'' ''{}'']"

definition version_archive :: "string \<Rightarrow> zip_entry list" where
  "version_archive v = archive_of (Some (v @ [CHR 0x0A])) []"

definition version_env :: "string \<Rightarrow> env" where
  "version_env v = archive_env (version_archive v) (Inr plain_style)"

section \<open>Basic facts\<close>

lemma errors_push_error [simp]: "errors (push_error m st) = errors st @ [m]"
  by (simp add: push_error_def)

lemma warnings_push_error [simp]: "warnings (push_error m st) = warnings st"
  by (simp add: push_error_def)

lemma errors_push_warning [simp]: "errors (push_warning m st) = errors st"
  by (simp add: push_warning_def)

lemma warnings_push_warning [simp]: "warnings (push_warning m st) = warnings st @ [m]"
  by (simp add: push_warning_def)

lemma no_msgs_simps [simp]: "errors no_msgs = []" "warnings no_msgs = []"
  by (simp_all add: no_msgs_def)

lemma bind_r_simps [simp]: "bind_r (Inr v) f = f v" "bind_r (Inl e) f = Inl e"
  by (simp_all add: bind_r_def)

lemma bind_r_Inr_iff: "bind_r m f = Inr y \<longleftrightarrow> (\<exists>v. m = Inr v \<and> f v = Inr y)"
  by (cases m) simp_all

lemma getProp_Inr: "getProp v k = Inr a \<Longrightarrow> getProp v k' = Inr (member v k')"
  by (auto simp: getProp_def split: if_splits)

section \<open>Every level appends to the messages it is given\<close>

lemma append_msgs_simps [simp]:
  "errors (append_msgs a b) = errors a @ errors b"
  "warnings (append_msgs a b) = warnings a @ warnings b"
  by (simp_all add: append_msgs_def)

lemma msgs_eqI: "errors a = errors b \<Longrightarrow> warnings a = warnings b \<Longrightarrow> (a :: msgs) = b"
  by simp

lemma append_msgs_assoc: "append_msgs (append_msgs a b) c = append_msgs a (append_msgs b c)"
  by (rule msgs_eqI) simp_all

lemma append_msgs_no_msgs [simp]: "append_msgs a no_msgs = a" "append_msgs no_msgs a = a"
  by (rule msgs_eqI; simp)+

lemma map_r_simps [simp]: "map_r f (Inr v) = Inr (f v)" "map_r f (Inl e) = Inl e"
  by (simp_all add: map_r_def)

lemma level4_delta: "level4 E style st = append_msgs st (level4 E style no_msgs)"
proof -
  have "foldl (\<lambda>s e. push_error (''style.json: '' @ e) s) st xs =
        append_msgs st (foldl (\<lambda>s e. push_error (''style.json: '' @ e) s) no_msgs xs)" for xs
  proof (induction xs rule: rev_induct)
    case Nil
    show ?case by simp
  next
    case (snoc x xs)
    then show ?case by (intro msgs_eqI) simp_all
  qed
  then show ?thesis by (simp add: level4_def)
qed

lemma check_metadata_delta: "check_metadata m st = append_msgs st (check_metadata m no_msgs)"
  by (rule msgs_eqI) (simp_all add: check_metadata_def check_bounds_def Let_def)

lemma level5_delta: "level5 style st = map_r (append_msgs st) (level5 style no_msgs)"
  using check_metadata_delta [of _ st] by (cases "getProp style ''metadata''") (simp_all add: level5_def)

lemma check_tile_delta: "check_tile ks i t st = append_msgs st (check_tile ks i t no_msgs)"
  by (rule msgs_eqI) (simp_all add: check_tile_def Let_def split: option.splits)

lemma for_tiles_delta: "for_tiles ks i ts st = append_msgs st (for_tiles ks i ts no_msgs)"
proof (induction ts arbitrary: st)
  case Nil
  show ?case by simp
next
  case (Cons t ts)
  have "for_tiles ks i (t # ts) st = append_msgs (check_tile ks i t st) (for_tiles ks i ts no_msgs)"
    using Cons.IH [of "check_tile ks i t st"] by simp
  also have "\<dots> = append_msgs st (append_msgs (check_tile ks i t no_msgs) (for_tiles ks i ts no_msgs))"
    using check_tile_delta [of ks i t st] by (simp add: append_msgs_assoc)
  also have "append_msgs (check_tile ks i t no_msgs) (for_tiles ks i ts no_msgs) = for_tiles ks i (t # ts) no_msgs"
    using Cons.IH [of "check_tile ks i t no_msgs"] by simp
  finally show ?case .
qed

lemma map_r_bind_r: "map_r f (bind_r m g) = bind_r m (\<lambda>v. map_r f (g v))"
  by (cases m) simp_all

lemma map_r_map_r: "map_r f (map_r g m) = map_r (\<lambda>v. f (g v)) m"
  by (cases m) simp_all

lemma bind_r_map_r: "bind_r (map_r f m) g = bind_r m (\<lambda>v. g (f v))"
  by (cases m) simp_all

lemma for_sources_delta: "for_sources ks srcs st = map_r (append_msgs st) (for_sources ks srcs no_msgs)"
proof (induction srcs arbitrary: st)
  case Nil
  show ?case by simp
next
  case (Cons p srcs)
  obtain i src where p: "p = (i, src)" by (cases p)
  show ?case
  proof (cases "getProp src ''tiles''")
    case (Inl e)
    then show ?thesis by (simp add: p)
  next
    case (Inr tiles)
    define d where "d = (if truthy tiles \<and> isArray tiles then for_tiles ks i (elements tiles) no_msgs else no_msgs)"
    have step: "(if truthy tiles \<and> isArray tiles then for_tiles ks i (elements tiles) s else s) = append_msgs s d" for s
      using for_tiles_delta [of ks i "elements tiles" s] by (simp add: d_def)
    have "for_sources ks (p # srcs) st = for_sources ks srcs (append_msgs st d)"
      by (simp add: p Inr step)
    also have "\<dots> = map_r (append_msgs (append_msgs st d)) (for_sources ks srcs no_msgs)"
      by (rule Cons.IH)
    also have "\<dots> = map_r (append_msgs st) (map_r (append_msgs d) (for_sources ks srcs no_msgs))"
      by (cases "for_sources ks srcs no_msgs") (simp_all add: append_msgs_assoc)
    also have "map_r (append_msgs d) (for_sources ks srcs no_msgs) = for_sources ks srcs d"
      by (rule Cons.IH [symmetric])
    also have "for_sources ks srcs d = for_sources ks (p # srcs) no_msgs"
      using step [of no_msgs] by (simp add: p Inr)
    finally show ?thesis .
  qed
qed

lemma level6_delta: "level6 ks style st = map_r (append_msgs st) (level6 ks style no_msgs)"
  using for_sources_delta [of ks _ st]
  by (cases "getProp style ''sources''") (simp_all add: level6_def)

lemma level7_delta: "level7 ks style st = map_r (append_msgs st) (level7 ks style no_msgs)"
proof (cases "getProp style ''glyphs''")
  case (Inl e)
  then show ?thesis by (simp add: level7_def)
next
  case (Inr g)
  have "push_error m st = append_msgs st (push_error m no_msgs)" for m
    by (rule msgs_eqI) simp_all
  then show ?thesis by (simp add: level7_def Inr Let_def)
qed

lemma validateSpriteFiles_delta: "validateSpriteFiles es b st = append_msgs st (validateSpriteFiles es b no_msgs)"
  by (rule msgs_eqI) (simp_all add: validateSpriteFiles_def Let_def)


lemma for_sprites_delta: "for_sprites es els st = map_r (append_msgs st) (for_sprites es els no_msgs)"
proof (induction els arbitrary: st)
  case Nil
  show ?case by simp
next
  case (Cons el els)
  show ?case
  proof (cases "getProp el ''url''")
    case (Inl e)
    then show ?thesis by simp
  next
    case (Inr url)
    define d where "d = (if typeof url = ''string'' \<and> prefix URI_BASE (chars url)
        then validateSpriteFiles es (drop (length URI_BASE) (chars url)) no_msgs else no_msgs)"
    have step: "(if typeof url = ''string'' \<and> prefix URI_BASE (chars url)
        then validateSpriteFiles es (drop (length URI_BASE) (chars url)) s else s) = append_msgs s d" for s
      using validateSpriteFiles_delta [of es _ s] by (simp add: d_def)
    have "for_sprites es (el # els) st = for_sprites es els (append_msgs st d)"
      by (simp add: Inr step)
    also have "\<dots> = map_r (append_msgs (append_msgs st d)) (for_sprites es els no_msgs)"
      by (rule Cons.IH)
    also have "\<dots> = map_r (append_msgs st) (map_r (append_msgs d) (for_sprites es els no_msgs))"
      by (cases "for_sprites es els no_msgs") (simp_all add: append_msgs_assoc)
    also have "map_r (append_msgs d) (for_sprites es els no_msgs) = for_sprites es els d"
      by (rule Cons.IH [symmetric])
    also have "for_sprites es els d = for_sprites es (el # els) no_msgs"
      using step [of no_msgs] by (simp add: Inr)
    finally show ?thesis .
  qed
qed

lemma level8_delta: "level8 es style st = map_r (append_msgs st) (level8 es style no_msgs)"
  using for_sprites_delta [of es _ st] validateSpriteFiles_delta [of es _ st]
  by (cases "getProp style ''sprite''") (simp_all add: level8_def)

lemma check_style_parts:
  assumes "check_style E es style st = Inr st'"
  shows "\<exists>d6 d7 d8.
           level6 (keys es) style no_msgs = Inr d6 \<and>
           level7 (keys es) style no_msgs = Inr d7 \<and>
           level8 es style no_msgs = Inr d8 \<and>
           getProp style ''metadata'' = Inr (member style ''metadata'') \<and>
           st' = append_msgs st (append_msgs (level4 E style no_msgs)
                  (append_msgs (check_metadata (if truthy (member style ''metadata'') then member style ''metadata'' else JObject []) no_msgs)
                  (append_msgs d6 (append_msgs d7 d8))))"
proof -
  from assms obtain st5 st6 st7 where
    5: "level5 style (level4 E style st) = Inr st5" and
    6: "level6 (keys es) style st5 = Inr st6" and
    7: "level7 (keys es) style st6 = Inr st7" and
    8: "level8 es style st7 = Inr st'"
    by (auto simp: check_style_def bind_r_Inr_iff)
  from 5 obtain m where m: "getProp style ''metadata'' = Inr m"
    by (auto simp: level5_def bind_r_Inr_iff)
  then have m': "m = member style ''metadata''"
    by (auto simp: getProp_def split: if_splits)
  from 5 have st5: "st5 = append_msgs (level4 E style st)
      (check_metadata (if truthy m then m else JObject []) no_msgs)"
    using check_metadata_delta [of _ "level4 E style st"] by (simp add: level5_def m)
  from 6 obtain d6 where d6: "level6 (keys es) style no_msgs = Inr d6" "st6 = append_msgs st5 d6"
    using level6_delta [of "keys es" style st5] by (cases "level6 (keys es) style no_msgs") simp_all
  from 7 obtain d7 where d7: "level7 (keys es) style no_msgs = Inr d7" "st7 = append_msgs st6 d7"
    using level7_delta [of "keys es" style st6] by (cases "level7 (keys es) style no_msgs") simp_all
  from 8 obtain d8 where d8: "level8 es style no_msgs = Inr d8" "st' = append_msgs st7 d8"
    using level8_delta [of es style st7] by (cases "level8 es style no_msgs") simp_all
  have "st' = append_msgs st (append_msgs (level4 E style no_msgs)
                  (append_msgs (check_metadata (if truthy m then m else JObject []) no_msgs)
                  (append_msgs d6 (append_msgs d7 d8))))"
    using level4_delta [of E style st] by (simp add: d8 d7 d6 st5 append_msgs_assoc)
  with d6 d7 d8 m m' show ?thesis by blast
qed


lemma hasTiles_iff: "hasTiles p ks \<longleftrightarrow> (\<exists>f \<in> set ks. prefix p f)"
  by (induction ks) auto

lemma missing_tiles_append [simp]: "missing_tiles ks (xs @ ys) = missing_tiles ks xs @ missing_tiles ks ys"
  by (simp add: missing_tiles_def)

lemma missing_tiles_Nil [simp]: "missing_tiles ks [] = []"
  by (simp add: missing_tiles_def)

lemma check_tile_reports:
  "errors (check_tile ks i t no_msgs) = missing_tiles ks (map (Pair i) (List.map_filter tile_prefix [t]))"
  "warnings (check_tile ks i t no_msgs) = []"
  by (simp_all add: check_tile_def tile_prefix_def missing_tiles_def List.map_filter_simps hasTiles_iff Let_def
        split: option.splits)

lemma map_filter_Cons_append: "List.map_filter f (x # xs) = List.map_filter f [x] @ List.map_filter f xs"
  by (simp add: List.map_filter_simps split: option.splits)

lemma for_tiles_reports:
  "errors (for_tiles ks i ts no_msgs) = missing_tiles ks (map (Pair i) (List.map_filter tile_prefix ts))"
  "warnings (for_tiles ks i ts no_msgs) = []"
proof (induction ts)
  case Nil
  case 1 show ?case by (simp add: List.map_filter_simps)
  case 2 show ?case by simp
next
  case (Cons t ts)
  have eq: "for_tiles ks i (t # ts) no_msgs = append_msgs (check_tile ks i t no_msgs) (for_tiles ks i ts no_msgs)"
    using for_tiles_delta [of ks i ts "check_tile ks i t no_msgs"] by simp
  have e: "errors (for_tiles ks i (t # ts) no_msgs) =
           errors (check_tile ks i t no_msgs) @ errors (for_tiles ks i ts no_msgs)"
    by (subst eq) simp
  have w: "warnings (for_tiles ks i (t # ts) no_msgs) =
           warnings (check_tile ks i t no_msgs) @ warnings (for_tiles ks i ts no_msgs)"
    by (subst eq) simp
  have mf: "List.map_filter tile_prefix (t # ts) =
            List.map_filter tile_prefix [t] @ List.map_filter tile_prefix ts"
    by (rule map_filter_Cons_append)
  case 1 show ?case
    by (simp only: e mf check_tile_reports Cons.IH map_append missing_tiles_append)
  case 2 show ?case
    by (simp only: w check_tile_reports Cons.IH append_Nil)
qed

lemma for_sources_reports:
  assumes "for_sources ks srcs no_msgs = Inr d"
  shows "errors d = missing_tiles ks (source_templates srcs) \<and> warnings d = []"
  using assms
proof (induction srcs arbitrary: d)
  case Nil
  then show ?case by (simp add: source_templates_def)
next
  case (Cons p srcs)
  obtain i src where p: "p = (i, src)" by (cases p)
  from Cons.prems obtain tiles where tiles: "getProp src ''tiles'' = Inr tiles"
    by (auto simp: p bind_r_Inr_iff)
  then have tiles': "tiles = member src ''tiles''"
    by (auto simp: getProp_def split: if_splits)
  define d0 where "d0 = for_tiles ks i (elements tiles) no_msgs"
  have arr: "(if truthy tiles \<and> isArray tiles then for_tiles ks i (elements tiles) no_msgs else no_msgs) = d0"
    by (cases tiles) (simp_all add: d0_def)
  from Cons.prems have "for_sources ks srcs d0 = Inr d"
    by (simp add: p tiles arr)
  then obtain d' where d': "for_sources ks srcs no_msgs = Inr d'" "d = append_msgs d0 d'"
    using for_sources_delta [of ks srcs d0] by (cases "for_sources ks srcs no_msgs") simp_all
  from Cons.IH [OF d'(1)] show ?case
    by (simp add: d'(2) d0_def for_tiles_reports tiles' source_templates_def p)
qed

lemma level6_reports:
  assumes "level6 ks style no_msgs = Inr d"
  shows "errors d = missing_tiles ks (internal_templates style) \<and> warnings d = []"
proof -
  from assms obtain s where s: "getProp style ''sources'' = Inr s"
    by (auto simp: level6_def bind_r_Inr_iff)
  then have s': "s = member style ''sources''"
    by (auto simp: getProp_def split: if_splits)
  show ?thesis
  proof (cases "truthy s")
    case True
    with assms s have "for_sources ks (object_entries s) no_msgs = Inr d"
      by (simp add: level6_def)
    from for_sources_reports [OF this] True show ?thesis
      by (simp add: internal_templates_def s')
  next
    case False
    with assms s show ?thesis
      by (auto simp: level6_def internal_templates_def s')
  qed
qed


lemma validateSpriteFiles_reports:
  "errors (validateSpriteFiles es b no_msgs) = sprite_errors (keys es) b"
  "warnings (validateSpriteFiles es b no_msgs) = sprite_warnings (keys es) b"
  by (auto simp: validateSpriteFiles_def sprite_errors_def sprite_warnings_def has_def Let_def)

lemma for_sprites_reports:
  assumes "for_sprites es els no_msgs = Inr d"
  shows "errors d = concat (map (sprite_errors (keys es)) (element_sprites els)) \<and>
         warnings d = concat (map (sprite_warnings (keys es)) (element_sprites els))"
  using assms
proof (induction els arbitrary: d)
  case Nil
  then show ?case by (simp add: element_sprites_def)
next
  case (Cons el els)
  from Cons.prems obtain url where url: "getProp el ''url'' = Inr url"
    by (auto simp: bind_r_Inr_iff)
  then have url': "url = member el ''url''"
    by (auto simp: getProp_def split: if_splits)
  define d0 where "d0 = (if typeof url = ''string'' \<and> prefix URI_BASE (chars url)
        then validateSpriteFiles es (drop (length URI_BASE) (chars url)) no_msgs else no_msgs)"
  from Cons.prems have "for_sprites es els d0 = Inr d"
    by (simp add: url d0_def)
  then obtain d' where d': "for_sprites es els no_msgs = Inr d'" "d = append_msgs d0 d'"
    using for_sprites_delta [of es els d0] by (cases "for_sprites es els no_msgs") simp_all
  from Cons.IH [OF d'(1)] show ?case
    by (simp add: d'(2) d0_def validateSpriteFiles_reports url' element_sprites_def)
qed

lemma level8_reports:
  assumes "level8 es style no_msgs = Inr d"
  shows "errors d = concat (map (sprite_errors (keys es)) (internal_sprites style)) \<and>
         warnings d = concat (map (sprite_warnings (keys es)) (internal_sprites style))"
proof -
  from assms obtain s where s: "getProp style ''sprite'' = Inr s"
    by (auto simp: level8_def bind_r_Inr_iff)
  then have s': "s = member style ''sprite''"
    by (auto simp: getProp_def split: if_splits)
  show ?thesis
  proof (cases "typeof s = ''string'' \<and> prefix URI_BASE (chars s)")
    case True
    with assms s show ?thesis
      by (auto simp: level8_def internal_sprites_def s' validateSpriteFiles_reports)
  next
    case False
    show ?thesis
    proof (cases "isArray s")
      case True
      with assms s False have "for_sprites es (elements s) no_msgs = Inr d"
        by (simp add: level8_def)
      from for_sprites_reports [OF this] False show ?thesis
        by (auto simp: internal_sprites_def s')
    next
      case nonarr: False
      then have "elements s = []" by (cases s) simp_all
      with assms s False nonarr show ?thesis
        by (auto simp: level8_def internal_sprites_def s' element_sprites_def)
    qed
  qed
qed

lemma level7_reports:
  assumes "level7 ks style no_msgs = Inr d"
  shows "set (errors d) \<subseteq> {''style.json references glyphs but no glyph files found''} \<and> warnings d = []"
  using assms by (auto simp: level7_def bind_r_Inr_iff Let_def split: if_splits)

lemma level4_reports:
  "errors (level4 E style no_msgs) = map (\<lambda>e. ''style.json: '' @ e) (validateStyleMin E style)"
  "warnings (level4 E style no_msgs) = []"
proof -
  have "errors (foldl (\<lambda>s e. push_error (''style.json: '' @ e) s) st xs) =
          errors st @ map (\<lambda>e. ''style.json: '' @ e) xs \<and>
        warnings (foldl (\<lambda>s e. push_error (''style.json: '' @ e) s) st xs) = warnings st" for xs st
    by (induction xs arbitrary: st) simp_all
  then show "errors (level4 E style no_msgs) = map (\<lambda>e. ''style.json: '' @ e) (validateStyleMin E style)"
    and "warnings (level4 E style no_msgs) = []"
    by (simp_all add: level4_def)
qed

lemma keys_build_entries: "set (keys (build_entries zs)) = filename ` set zs"
proof -
  have "fst ` set (foldl (\<lambda>m e. AList.update (filename e) e m) m0 zs) = fst ` set m0 \<union> filename ` set zs" for m0
    by (induction zs arbitrary: m0) (auto simp: dom_update)
  then show ?thesis by (simp add: keys_def build_entries_def)
qed

lemma map_of_build_entries_None: "map_of (build_entries zs) k = None \<longleftrightarrow> k \<notin> filename ` set zs"
  using keys_build_entries [of zs] by (simp add: map_of_eq_None_iff keys_def)

section \<open>The messages of a result\<close>

lemma missing_tiles_cong: "set ks = set ks' \<Longrightarrow> missing_tiles ks t = missing_tiles ks' t"
  by (simp add: missing_tiles_def)

lemma sprite_errors_cong: "set ks = set ks' \<Longrightarrow> sprite_errors ks = sprite_errors ks'"
  by (rule ext) (simp add: sprite_errors_def)

lemma sprite_warnings_cong: "set ks = set ks' \<Longrightarrow> sprite_warnings ks = sprite_warnings ks'"
  by (rule ext) (simp add: sprite_warnings_def)

lemma level2_reports:
  assumes "level2 E es no_msgs = Inr d2"
  shows "(\<forall>e \<in> set (errors d2). prefix ''Invalid version format: '' e \<or>
            prefix ''Unsupported major version: '' e) \<and>
         set (warnings d2) \<subseteq> {''Missing VERSION file (assuming version 1.0)''}"
  using assms
  by (auto simp: level2_def Let_def split: option.splits sum.splits if_splits)

lemma validate_reports:
  assumes opened: "fs_open E fp = Opened (Some zs)"
    and entry: "map_of (build_entries zs) STYLE_FILE = Some se"
    and style: "read_style E se = Inr style"
    and ret: "validate E fp = Inr r"
  shows "\<exists>d2 e7.
     level2 E (build_entries zs) no_msgs = Inr d2 \<and>
     set e7 \<subseteq> {''style.json references glyphs but no glyph files found''} \<and>
     errors r = errors d2 @ map (\<lambda>e. ''style.json: '' @ e) (validateStyleMin E style) @
                errors (check_metadata (metadata_of style) no_msgs) @
                missing_tiles (map filename zs) (internal_templates style) @ e7 @
                concat (map (sprite_errors (map filename zs)) (internal_sprites style)) \<and>
     warnings r = warnings d2 @ warnings (check_metadata (metadata_of style) no_msgs) @
                  concat (map (sprite_warnings (map filename zs)) (internal_sprites style)) \<and>
     valid r = (errors r = [])"
proof -
  let ?es = "build_entries zs"
  have names: "set (keys ?es) = set (map filename zs)"
    by (simp add: keys_build_entries)
  from ret opened obtain d2 st where
    d2: "level2 E ?es no_msgs = Inr d2" and
    st: "check_style E ?es style d2 = Inr st" and
    r: "r = \<lparr>errors = errors st, warnings = warnings st, valid = (length (errors st) = 0)\<rparr>"
    by (auto simp: validate_def validate_entries_def validate_style_def Let_def entry style bind_r_Inr_iff)
  from check_style_parts [OF st] obtain d6 d7 d8 where
    d6: "level6 (keys ?es) style no_msgs = Inr d6" and
    d7: "level7 (keys ?es) style no_msgs = Inr d7" and
    d8: "level8 ?es style no_msgs = Inr d8" and
    st': "st = append_msgs d2 (append_msgs (level4 E style no_msgs)
            (append_msgs (check_metadata (metadata_of style) no_msgs)
            (append_msgs d6 (append_msgs d7 d8))))"
    unfolding metadata_of_def by blast
  have e: "errors r = errors d2 @ map (\<lambda>e. ''style.json: '' @ e) (validateStyleMin E style) @
                errors (check_metadata (metadata_of style) no_msgs) @
                missing_tiles (map filename zs) (internal_templates style) @ errors d7 @
                concat (map (sprite_errors (map filename zs)) (internal_sprites style))"
    using level6_reports [OF d6] level8_reports [OF d8]
      missing_tiles_cong [OF names] sprite_errors_cong [OF names]
    by (simp add: r st' level4_reports)
  have w: "warnings r = warnings d2 @ warnings (check_metadata (metadata_of style) no_msgs) @
                  concat (map (sprite_warnings (map filename zs)) (internal_sprites style))"
    using level6_reports [OF d6] level7_reports [OF d7] level8_reports [OF d8]
      sprite_warnings_cong [OF names]
    by (simp add: r st' level4_reports)
  have v: "valid r = (errors r = [])"
    by (simp add: r)
  from d2 e w v level7_reports [OF d7] show ?thesis by blast
qed


lemma check_metadata_reports:
  "set (errors (check_metadata md no_msgs)) \<subseteq>
     {''Missing or invalid smp:bounds in style.json metadata'',
      ''smp:bounds values must be numbers'',
      ''Missing or invalid smp:maxzoom in style.json metadata''}"
  "set (warnings (check_metadata md no_msgs)) \<subseteq>
     {''Invalid smp:sourceFolders in style.json metadata''}"
  by (auto simp: check_metadata_def check_bounds_def Let_def split: if_splits)

lemma missing_tiles_form:
  "e \<in> set (missing_tiles ks t) \<Longrightarrow> prefix ''No tile files found for source '' e"
  by (auto simp: missing_tiles_def tile_error_def)

lemma sprite_errors_form:
  "e \<in> set (concat (map (sprite_errors ks) bs)) \<Longrightarrow> prefix ''Missing sprite file: '' e"
  by (auto simp: sprite_errors_def split: if_splits)

lemma sprite_warnings_form:
  "w \<in> set (concat (map (sprite_warnings ks) bs)) \<Longrightarrow> prefix ''Missing @2x sprite for '' w"
  by (auto simp: sprite_warnings_def split: if_splits)

lemma filter_eq_Nil: "(\<And>x. x \<in> set xs \<Longrightarrow> \<not> P x) \<Longrightarrow> filter P xs = []"
  by (simp add: filter_empty_conv)

lemma filter_eq_self: "(\<And>x. x \<in> set xs \<Longrightarrow> P x) \<Longrightarrow> filter P xs = xs"
  by (simp add: filter_id_conv)

lemma four_elements:
  assumes "length xs = 4"
  shows "(\<exists>v \<in> set xs. P v) \<longleftrightarrow> P (xs ! 0) \<or> P (xs ! 1) \<or> P (xs ! 2) \<or> P (xs ! 3)"
proof -
  from assms obtain a b c d where "xs = [a, b, c, d]"
    by (auto simp: length_Suc_conv eval_nat_numeral)
  then show ?thesis by auto
qed

lemma check_metadata_errors_iff:
  "''Missing or invalid smp:bounds in style.json metadata'' \<in> set (errors (check_metadata md no_msgs))
     \<longleftrightarrow> \<not> isArray (member md ''smp:bounds'') \<or> length (elements (member md ''smp:bounds'')) \<noteq> 4"
  "''smp:bounds values must be numbers'' \<in> set (errors (check_metadata md no_msgs))
     \<longleftrightarrow> isArray (member md ''smp:bounds'') \<and> length (elements (member md ''smp:bounds'')) = 4 \<and>
         (\<exists>v \<in> set (elements (member md ''smp:bounds'')). typeof v \<noteq> ''number'')"
  "''Missing or invalid smp:maxzoom in style.json metadata'' \<in> set (errors (check_metadata md no_msgs))
     \<longleftrightarrow> typeof (member md ''smp:maxzoom'') \<noteq> ''number''"
  "''Invalid smp:sourceFolders in style.json metadata'' \<in> set (warnings (check_metadata md no_msgs))
     \<longleftrightarrow> truthy (member md ''smp:sourceFolders'') \<and> typeof (member md ''smp:sourceFolders'') \<noteq> ''object''"
  using four_elements [of "elements (member md ''smp:bounds'')" "\<lambda>v. typeof v \<noteq> ''number''"]
  by (auto simp: check_metadata_def check_bounds_def Let_def)

section \<open>Trimming and the version grammar\<close>

lemma strip_one_hit:
  assumes "w \<in> set ws" "w \<noteq> []" "\<forall>a \<in> set ws. prefix a (w @ s) \<longrightarrow> a = w"
  shows "strip_one ws (w @ s) = Some s"
  using assms by (induction ws) auto

lemma strip_one_miss:
  assumes "\<forall>a \<in> set ws. \<not> prefix a s"
  shows "strip_one ws s = None"
  using assms by (induction ws) auto

lemma strip_leading_pieces:
  assumes free: "\<forall>a \<in> set ws. \<forall>b \<in> set ws. prefix a b \<longrightarrow> a = b"
    and nonempty: "[] \<notin> set ws"
    and core: "\<forall>a \<in> set ws. \<not> prefix a core"
    and pieces: "set pieces \<subseteq> set ws"
  shows "strip_leading ws (concat pieces @ core) = core"
  using pieces
proof (induction pieces)
  case Nil
  from core have "strip_one ws core = None" by (rule strip_one_miss)
  then show ?case by (simp add: strip_leading.simps [of ws core])
next
  case (Cons w pieces)
  then have w: "w \<in> set ws" and rest: "set pieces \<subseteq> set ws" by simp_all
  from w nonempty have ne: "w \<noteq> []" by auto
  have "\<forall>a \<in> set ws. prefix a (w @ (concat pieces @ core)) \<longrightarrow> a = w"
  proof (intro ballI impI)
    fix a assume a: "a \<in> set ws" and p: "prefix a (w @ (concat pieces @ core))"
    have "prefix w (w @ (concat pieces @ core))" by simp
    with p have "prefix a w \<or> prefix w a" by (rule prefix_same_cases)
    with free a w show "a = w" by auto
  qed
  with w ne have "strip_one ws (w @ (concat pieces @ core)) = Some (concat pieces @ core)"
    by (rule strip_one_hit)
  then show ?case
    using Cons.IH [OF rest] by (simp add: strip_leading.simps [of ws "w @ concat pieces @ core"])
qed

lemma js_whitespace_free:
  "\<forall>a \<in> set js_whitespace. \<forall>b \<in> set js_whitespace. prefix a b \<longrightarrow> a = b"
  by (simp add: js_whitespace_def)

lemma js_whitespace_rev_free:
  "\<forall>a \<in> set (map rev js_whitespace). \<forall>b \<in> set (map rev js_whitespace). prefix a b \<longrightarrow> a = b"
  by (simp add: js_whitespace_def)

lemma js_whitespace_first:
  "a \<in> set js_whitespace \<Longrightarrow> is_digit c \<Longrightarrow> \<not> prefix a (c # s)"
  by (auto simp: js_whitespace_def is_digit_def)

lemma js_whitespace_last:
  "a \<in> set (map rev js_whitespace) \<Longrightarrow> is_digit c \<Longrightarrow> \<not> prefix a (c # s)"
  by (auto simp: js_whitespace_def is_digit_def)

lemma js_whitespace_nonempty: "[] \<notin> set js_whitespace" "[] \<notin> set (map rev js_whitespace)"
  by (simp_all add: js_whitespace_def)

lemma trim_padded:
  assumes pre: "set pre \<subseteq> set js_whitespace" and post: "set post \<subseteq> set js_whitespace"
    and first: "is_digit c" and last: "is_digit d"
  shows "trim (concat pre @ (c # mid @ [d]) @ concat post) = c # mid @ [d]"
proof -
  have "trimStart (concat pre @ (c # mid @ [d]) @ concat post) = (c # mid @ [d]) @ concat post"
    unfolding trimStart_def
    using js_whitespace_free js_whitespace_nonempty(1) _ pre
    by (rule strip_leading_pieces) (use first js_whitespace_first in auto)
  moreover have "rev ((c # mid @ [d]) @ concat post) = concat (map rev (rev post)) @ (d # rev mid @ [c])"
    by (simp add: rev_concat)
  moreover have "set (map rev (rev post)) \<subseteq> set (map rev js_whitespace)"
    using post by auto
  with js_whitespace_rev_free js_whitespace_nonempty(2) _
  have "strip_leading (map rev js_whitespace) (concat (map rev (rev post)) @ (d # rev mid @ [c])) = d # rev mid @ [c]"
    by (rule strip_leading_pieces) (use last js_whitespace_last in auto)
  ultimately show ?thesis
    by (simp add: trim_def trimEnd_def)
qed

lemma version_match_digits:
  assumes "major \<noteq> []" "minor \<noteq> []" "list_all is_digit major" "list_all is_digit minor"
  shows "version_match (major @ ''.'' @ minor) = Some major"
proof -
  have dot: "\<not> is_digit CHR ''.''" by (simp add: is_digit_def)
  from assms(3) have "takeWhile is_digit (major @ CHR ''.'' # minor) = major"
    using dot by (simp add: takeWhile_append2 list_all_iff)
  moreover from assms(3) have "dropWhile is_digit (major @ CHR ''.'' # minor) = CHR ''.'' # minor"
    using dot by (simp add: dropWhile_append2 list_all_iff)
  ultimately show ?thesis
    using assms by (simp add: version_match_def)
qed

lemma version_match_Some_iff:
  "version_match v = Some m \<longleftrightarrow>
     (\<exists>minor. v = m @ ''.'' @ minor \<and> m \<noteq> [] \<and> minor \<noteq> [] \<and>
        list_all is_digit m \<and> list_all is_digit minor)"
proof
  assume a: "version_match v = Some m"
  have split: "v = takeWhile is_digit v @ dropWhile is_digit v"
    by simp
  have digits: "list_all is_digit (takeWhile is_digit v)"
    by (simp add: list_all_iff) (meson set_takeWhileD)
  from a obtain c minor where r: "dropWhile is_digit v = c # minor"
    by (cases "dropWhile is_digit v") (simp_all add: version_match_def Let_def)
  with a have m: "m = takeWhile is_digit v" and ne: "m \<noteq> []" and c: "c = CHR ''.''"
    and minor: "minor \<noteq> []" "list_all is_digit minor"
    by (auto simp: version_match_def Let_def split: if_splits)
  from split r m c have v: "v = m @ ''.'' @ minor"
    by simp
  from digits m have "list_all is_digit m"
    by simp
  with v ne minor show "\<exists>minor. v = m @ ''.'' @ minor \<and> m \<noteq> [] \<and> minor \<noteq> [] \<and>
        list_all is_digit m \<and> list_all is_digit minor"
    by blast
next
  assume "\<exists>minor. v = m @ ''.'' @ minor \<and> m \<noteq> [] \<and> minor \<noteq> [] \<and>
        list_all is_digit m \<and> list_all is_digit minor"
  then show "version_match v = Some m"
    by (auto simp: version_match_digits simp del: append.simps)
qed

lemma version_match_None_iff:
  "version_match v = None \<longleftrightarrow>
     \<not> (\<exists>major minor. v = major @ ''.'' @ minor \<and> major \<noteq> [] \<and> minor \<noteq> [] \<and>
        list_all is_digit major \<and> list_all is_digit minor)"
proof -
  have "version_match v = None \<longleftrightarrow> \<not> (\<exists>m. version_match v = Some m)"
    by (cases "version_match v") simp_all
  then show ?thesis
    by (simp only: version_match_Some_iff)
qed

lemma digit_chars: "map digit_char [0..<10] = ''0123456789''"
  by code_simp

lemma digit_char_is_digit: "d < 10 \<Longrightarrow> is_digit (digit_char d)"
proof -
  assume "d < 10"
  then have "digit_char d \<in> set (map digit_char [0..<10])"
    by simp
  then show ?thesis
    by (simp only: digit_chars is_digit_def)
qed

lemma is_digit_digit_char: "is_digit c \<Longrightarrow> \<exists>d<10. c = digit_char d"
proof -
  assume "is_digit c"
  then have "c \<in> set (map digit_char [0..<10])"
    by (simp only: digit_chars is_digit_def)
  then show ?thesis by auto
qed

lemma of_char_digit_char: "d < 10 \<Longrightarrow> of_char (digit_char d) - 48 = d"
  by (simp add: digit_char_def)

lemma parseInt_snoc: "parseInt (ds @ [c]) = 10 * parseInt ds + (of_char c - 48)"
  by (simp add: parseInt_def)

lemma parseInt_show_nat: "parseInt (show_nat n) = n"
proof (induction n rule: show_nat.induct)
  case (1 n)
  show ?case
  proof (cases "n < 10")
    case True
    then show ?thesis
      by (simp add: show_nat.simps [of n] parseInt_def of_char_digit_char)
  next
    case False
    with 1 have "parseInt (show_nat (n div 10)) = n div 10" by simp
    with False show ?thesis
      by (simp add: show_nat.simps [of n] parseInt_snoc of_char_digit_char)
  qed
qed

lemma parseInt_zeros: "parseInt (replicate k CHR ''0'' @ ds) = parseInt ds"
proof -
  have "foldl (\<lambda>n c. 10 * n + (of_char c - 48)) 0 (replicate k CHR ''0'') = (0::nat)"
    by (induction k) simp_all
  then show ?thesis
    by (simp add: parseInt_def)
qed

lemma show_nat_digits: "list_all is_digit (show_nat n) \<and> show_nat n \<noteq> []"
proof (induction n rule: show_nat.induct)
  case (1 n)
  show ?case
  proof (cases "n < 10")
    case True
    then show ?thesis
      by (simp add: show_nat.simps [of n] digit_char_is_digit)
  next
    case False
    with 1 show ?thesis
      by (simp add: show_nat.simps [of n] digit_char_is_digit)
  qed
qed

lemma digits_decompose:
  assumes "ds \<noteq> []" "list_all is_digit ds"
  shows "\<exists>k n. ds = replicate k CHR ''0'' @ show_nat n"
  using assms
proof (induction ds rule: rev_induct)
  case Nil
  then show ?case by simp
next
  case (snoc c ds)
  from snoc.prems obtain d where d: "d < 10" "c = digit_char d"
    using is_digit_digit_char [of c] by auto
  have zero: "show_nat 0 = [CHR ''0'']"
    by code_simp
  show ?case
  proof (cases "ds = []")
    case True
    with d have "ds @ [c] = replicate 0 CHR ''0'' @ show_nat d"
      by (simp add: show_nat.simps [of d])
    then show ?thesis by blast
  next
    case False
    with snoc obtain k n where kn: "ds = replicate k CHR ''0'' @ show_nat n"
      by auto
    show ?thesis
    proof (cases "n = 0")
      case True
      with kn zero have "ds = replicate (Suc k) CHR ''0''"
        by (simp add: replicate_append_same)
      with d have "ds @ [c] = replicate (Suc k) CHR ''0'' @ show_nat d"
        by (simp add: show_nat.simps [of d])
      then show ?thesis by blast
    next
      case pos: False
      with d have "show_nat (10 * n + d) = show_nat n @ [c]"
        by (simp add: show_nat.simps [of "10 * n + d"])
      with kn have "ds @ [c] = replicate k CHR ''0'' @ show_nat (10 * n + d)"
        by simp
      then show ?thesis by blast
    qed
  qed
qed

lemma strip_one_Some: "strip_one ws s = Some r \<Longrightarrow> \<exists>w \<in> set ws. s = w @ r"
  by (induction ws) (auto split: if_splits simp: prefix_def)

lemma strip_leading_keeps:
  assumes "c \<in> set s" "\<forall>w \<in> set ws. c \<notin> set w"
  shows "c \<in> set (strip_leading ws s)"
  using assms
proof (induction ws s rule: strip_leading.induct)
  case (1 ws s)
  show ?case
  proof (cases "strip_one ws s")
    case None
    with "1.prems" show ?thesis
      by (simp add: strip_leading.simps [of ws s])
  next
    case (Some r)
    then obtain w where "w \<in> set ws" "s = w @ r"
      using strip_one_Some by blast
    with "1.prems" have "c \<in> set r" by auto
    with "1.IH" [OF Some] "1.prems"(2) have "c \<in> set (strip_leading ws r)" by blast
    with Some show ?thesis
      by (simp add: strip_leading.simps [of ws s])
  qed
qed

lemma trim_keeps:
  assumes "c \<in> set s" "\<forall>w \<in> set js_whitespace. c \<notin> set w"
  shows "c \<in> set (trim s)"
proof -
  from assms have 1: "c \<in> set (trimStart s)"
    unfolding trimStart_def by (rule strip_leading_keeps)
  from assms(2) have 2: "\<forall>w \<in> set (map rev js_whitespace). c \<notin> set w"
    by auto
  from 1 have "c \<in> set (rev (trimStart s))" by simp
  then have "c \<in> set (strip_leading (map rev js_whitespace) (rev (trimStart s)))"
    using 2 by (rule strip_leading_keeps)
  then show ?thesis
    by (simp add: trim_def trimEnd_def)
qed

lemma grammar_chars:
  assumes "v = major @ ''.'' @ minor" "list_all is_digit major" "list_all is_digit minor"
    and "c \<in> set v"
  shows "is_digit c \<or> c = CHR ''.''"
  using assms by (auto simp: list_all_iff)

section \<open>The result as a function of the messages of level 2\<close>

lemma check_style_delta:
  "check_style E es style st = map_r (append_msgs st) (check_style E es style no_msgs)"
proof (cases "level5 style no_msgs")
  case (Inl e)
  then have "level5 style s = Inl e" for s
    using level5_delta [of style s] by simp
  then show ?thesis by (simp add: check_style_def)
next
  case (Inr d5)
  then have 5: "level5 style s = Inr (append_msgs s d5)" for s
    using level5_delta [of style s] by simp
  show ?thesis
  proof (cases "level6 (keys es) style no_msgs")
    case (Inl e)
    then have "level6 (keys es) style s = Inl e" for s
      using level6_delta [of "keys es" style s] by simp
    then show ?thesis by (simp add: check_style_def 5)
  next
    case (Inr d6)
    then have 6: "level6 (keys es) style s = Inr (append_msgs s d6)" for s
      using level6_delta [of "keys es" style s] by simp
    show ?thesis
    proof (cases "level7 (keys es) style no_msgs")
      case (Inl e)
      then have "level7 (keys es) style s = Inl e" for s
        using level7_delta [of "keys es" style s] by simp
      then show ?thesis by (simp add: check_style_def 5 6)
    next
      case (Inr d7)
      then have 7: "level7 (keys es) style s = Inr (append_msgs s d7)" for s
        using level7_delta [of "keys es" style s] by simp
      show ?thesis
      proof (cases "level8 es style no_msgs")
        case (Inl e)
        then have "level8 es style s = Inl e" for s
          using level8_delta [of es style s] by simp
        then show ?thesis by (simp add: check_style_def 5 6 7)
      next
        case (Inr d8)
        then have 8: "level8 es style s = Inr (append_msgs s d8)" for s
          using level8_delta [of es style s] by simp
        show ?thesis
          using level4_delta [of E style st]
          by (simp add: check_style_def 5 6 7 8 append_msgs_assoc)
      qed
    qed
  qed
qed

lemma validate_style_delta:
  "validate_style E es st = map_r (with_msgs st) (validate_style E es no_msgs)"
proof (cases "map_of es STYLE_FILE")
  case None
  then show ?thesis by (simp add: validate_style_def result_def with_msgs_def)
next
  case (Some se)
  show ?thesis
  proof (cases "read_style E se")
    case (Inl m)
    with Some show ?thesis by (simp add: validate_style_def result_def with_msgs_def)
  next
    case (Inr style)
    show ?thesis
    proof (cases "check_style E es style no_msgs")
      case (Inl e)
      then have "check_style E es style st = Inl e"
        using check_style_delta [of E es style st] by simp
      with Inl Some Inr show ?thesis by (simp add: validate_style_def)
    next
      case d: (Inr d)
      then have "check_style E es style st = Inr (append_msgs st d)"
        using check_style_delta [of E es style st] by simp
      with d Some Inr show ?thesis by (simp add: validate_style_def with_msgs_def)
    qed
  qed
qed

lemma level2_absent:
  "map_of es VERSION_FILE = None \<Longrightarrow>
   level2 E es st = Inr (push_warning ''Missing VERSION file (assuming version 1.0)'' st)"
  by (simp add: level2_def)

lemma level2_present:
  assumes "map_of es VERSION_FILE = Some ve" "content ve = Inr text"
  shows "level2 E es st =
     (case version_match (trim text) of
        None \<Rightarrow> Inr (push_error (''Invalid version format: '' @ dq @ trim text @ dq @
                 '' (expected MAJOR.MINOR)'') st)
      | Some major \<Rightarrow>
          if parseInt major = 1 then Inr st
          else Inr (push_error (''Unsupported major version: '' @ String_of_number E (parseInt major) @
                  '' (supported: '' @ String_of_number E 1 @ '')'') st))"
  using assms
  by (auto simp: level2_def Let_def SUPPORTED_MAJOR_VERSIONS_def split: option.splits)

lemma validate_style_error_forms:
  assumes "validate_style E es no_msgs = Inr r'" "e \<in> set (errors r')"
  shows "e = ''Missing style.json'' \<or> prefix ''style.json is not valid JSON: '' e \<or>
         prefix ''style.json: '' e \<or>
         e \<in> {''Missing or invalid smp:bounds in style.json metadata'',
              ''smp:bounds values must be numbers'',
              ''Missing or invalid smp:maxzoom in style.json metadata''} \<or>
         prefix ''No tile files found for source '' e \<or>
         e = ''style.json references glyphs but no glyph files found'' \<or>
         prefix ''Missing sprite file: '' e"
proof (cases "map_of es STYLE_FILE")
  case None
  with assms show ?thesis by (auto simp: validate_style_def result_def)
next
  case (Some se)
  show ?thesis
  proof (cases "read_style E se")
    case (Inl m)
    with Some assms show ?thesis by (auto simp: validate_style_def result_def)
  next
    case (Inr style)
    with Some assms obtain st where st: "check_style E es style no_msgs = Inr st"
      and r': "errors r' = errors st"
      by (auto simp: validate_style_def bind_r_Inr_iff)
    from check_style_parts [OF st] obtain d6 d7 d8 where
      d6: "level6 (keys es) style no_msgs = Inr d6" and
      d7: "level7 (keys es) style no_msgs = Inr d7" and
      d8: "level8 es style no_msgs = Inr d8" and
      st': "st = append_msgs no_msgs (append_msgs (level4 E style no_msgs)
            (append_msgs (check_metadata (metadata_of style) no_msgs)
            (append_msgs d6 (append_msgs d7 d8))))"
      unfolding metadata_of_def by blast
    from assms(2) have "e \<in> set (map (\<lambda>e. ''style.json: '' @ e) (validateStyleMin E style)) \<or>
        e \<in> set (errors (check_metadata (metadata_of style) no_msgs)) \<or>
        e \<in> set (errors d6) \<or> e \<in> set (errors d7) \<or> e \<in> set (errors d8)"
      by (simp add: r' st' level4_reports)
    then show ?thesis
    proof (elim disjE)
      assume "e \<in> set (map (\<lambda>e. ''style.json: '' @ e) (validateStyleMin E style))"
      then have "prefix ''style.json: '' e" by auto
      then show ?thesis by (simp only: simp_thms)
    next
      assume "e \<in> set (errors (check_metadata (metadata_of style) no_msgs))"
      with check_metadata_reports(1) [of "metadata_of style"]
      have "e \<in> {''Missing or invalid smp:bounds in style.json metadata'',
              ''smp:bounds values must be numbers'',
              ''Missing or invalid smp:maxzoom in style.json metadata''}"
        by (rule rev_subsetD [rotated])
      then show ?thesis by (simp only: simp_thms)
    next
      assume "e \<in> set (errors d6)"
      with level6_reports [OF d6]
      have "e \<in> set (missing_tiles (keys es) (internal_templates style))"
        by simp
      then have "prefix ''No tile files found for source '' e"
        by (rule missing_tiles_form)
      then show ?thesis by (simp only: simp_thms)
    next
      assume "e \<in> set (errors d7)"
      with level7_reports [OF d7]
      have "e = ''style.json references glyphs but no glyph files found''"
        by auto
      then show ?thesis by (simp only: simp_thms)
    next
      assume "e \<in> set (errors d8)"
      with level8_reports [OF d8]
      have "e \<in> set (concat (map (sprite_errors (keys es)) (internal_sprites style)))"
        by simp
      then have "prefix ''Missing sprite file: '' e"
        by (rule sprite_errors_form)
      then show ?thesis by (simp only: simp_thms)
    qed
  qed
qed

lemma metadata_error_in_result:
  assumes opened: "fs_open E fp = Opened (Some zs)"
    and entry: "map_of (build_entries zs) STYLE_FILE = Some se"
    and style: "read_style E se = Inr style"
    and ret: "validate E fp = Inr r"
    and e: "e \<in> {''Missing or invalid smp:bounds in style.json metadata'',
                 ''smp:bounds values must be numbers'',
                 ''Missing or invalid smp:maxzoom in style.json metadata'',
                 ''Invalid smp:sourceFolders in style.json metadata''}"
  shows "e \<in> set (errors r) \<longleftrightarrow> e \<in> set (errors (check_metadata (metadata_of style) no_msgs))"
proof -
  from validate_reports [OF opened entry style ret] obtain d2 e7 where
    d2: "level2 E (build_entries zs) no_msgs = Inr d2" and
    e7: "set e7 \<subseteq> {''style.json references glyphs but no glyph files found''}" and
    er: "errors r = errors d2 @ map (\<lambda>e. ''style.json: '' @ e) (validateStyleMin E style) @
                errors (check_metadata (metadata_of style) no_msgs) @
                missing_tiles (map filename zs) (internal_templates style) @ e7 @
                concat (map (sprite_errors (map filename zs)) (internal_sprites style))"
    by blast
  have 2: "e \<notin> set (errors d2)"
  proof
    assume "e \<in> set (errors d2)"
    with level2_reports [OF d2] have "prefix ''Invalid version format: '' e \<or>
            prefix ''Unsupported major version: '' e" by blast
    with e show False by auto
  qed
  have 4: "e \<notin> set (map (\<lambda>e. ''style.json: '' @ e) (validateStyleMin E style))"
    using e by auto
  have 6: "e \<notin> set (missing_tiles (map filename zs) (internal_templates style))"
  proof
    assume "e \<in> set (missing_tiles (map filename zs) (internal_templates style))"
    then have "prefix ''No tile files found for source '' e" by (rule missing_tiles_form)
    with e show False by auto
  qed
  have 7: "e \<notin> set e7"
    using e e7 by auto
  have 8: "e \<notin> set (concat (map (sprite_errors (map filename zs)) (internal_sprites style)))"
  proof
    assume "e \<in> set (concat (map (sprite_errors (map filename zs)) (internal_sprites style)))"
    then have "prefix ''Missing sprite file: '' e" by (rule sprite_errors_form)
    with e show False by auto
  qed
  have "e \<in> set (errors r) \<longleftrightarrow>
        e \<in> set (errors d2) \<or> e \<in> set (map (\<lambda>e. ''style.json: '' @ e) (validateStyleMin E style)) \<or>
        e \<in> set (errors (check_metadata (metadata_of style) no_msgs)) \<or>
        e \<in> set (missing_tiles (map filename zs) (internal_templates style)) \<or> e \<in> set e7 \<or>
        e \<in> set (concat (map (sprite_errors (map filename zs)) (internal_sprites style)))"
    by (simp only: er set_append Un_iff)
  with 2 4 6 7 8 show ?thesis by blast
qed

lemma metadata_warning_in_result:
  assumes opened: "fs_open E fp = Opened (Some zs)"
    and entry: "map_of (build_entries zs) STYLE_FILE = Some se"
    and style: "read_style E se = Inr style"
    and ret: "validate E fp = Inr r"
  shows "''Invalid smp:sourceFolders in style.json metadata'' \<in> set (warnings r) \<longleftrightarrow>
         ''Invalid smp:sourceFolders in style.json metadata'' \<in>
            set (warnings (check_metadata (metadata_of style) no_msgs))"
proof -
  let ?w = "''Invalid smp:sourceFolders in style.json metadata''"
  from validate_reports [OF opened entry style ret] obtain d2 where
    d2: "level2 E (build_entries zs) no_msgs = Inr d2" and
    w: "warnings r = warnings d2 @ warnings (check_metadata (metadata_of style) no_msgs) @
                  concat (map (sprite_warnings (map filename zs)) (internal_sprites style))"
    by blast
  have 2: "?w \<notin> set (warnings d2)"
    using level2_reports [OF d2] by auto
  have 8: "?w \<notin> set (concat (map (sprite_warnings (map filename zs)) (internal_sprites style)))"
  proof
    assume "?w \<in> set (concat (map (sprite_warnings (map filename zs)) (internal_sprites style)))"
    then have "prefix ''Missing @2x sprite for '' ?w" by (rule sprite_warnings_form)
    then show False by simp
  qed
  have "?w \<in> set (warnings r) \<longleftrightarrow> ?w \<in> set (warnings d2) \<or>
        ?w \<in> set (warnings (check_metadata (metadata_of style) no_msgs)) \<or>
        ?w \<in> set (concat (map (sprite_warnings (map filename zs)) (internal_sprites style)))"
    by (simp only: w set_append Un_iff)
  with 2 8 show ?thesis by blast
qed

section \<open>Substitution in a tile template\<close>

lemma find_tile_variable_None:
  "CHR ''{'' \<noteq> c \<Longrightarrow> find (\<lambda>(p, v). prefix p (c # cs)) (tile_variables t) = None"
  by (auto simp: tile_variables_def)

lemma substitute_plain:
  "CHR ''{'' \<notin> set a \<Longrightarrow>
   substitute (tile_variables t) 0 (a @ rest) = a @ substitute (tile_variables t) 0 rest"
  by (induction a) (simp_all add: find_tile_variable_None)

lemma substitute_z:
  "substitute (tile_variables t) 0 (''{z}'' @ rest) =
     show_nat (coord_z t) @ substitute (tile_variables t) 0 rest"
  by (simp add: tile_variables_def numeral_2_eq_2)

lemma substitute_x:
  "substitute (tile_variables t) 0 (''{x}'' @ rest) =
     show_nat (coord_x t) @ substitute (tile_variables t) 0 rest"
  by (simp add: tile_variables_def numeral_2_eq_2)

lemma substitute_y:
  "substitute (tile_variables t) 0 (''{y}'' @ rest) =
     show_int (tile_y t) @ substitute (tile_variables t) 0 rest"
  by (simp add: tile_variables_def numeral_2_eq_2)

lemma substitute_zxy:
  assumes "CHR ''{'' \<notin> set a \<union> set b \<union> set d \<union> set e"
  shows "substitute (tile_variables t) 0 (a @ ''{z}'' @ b @ ''{x}'' @ d @ ''{y}'' @ e) =
         a @ show_nat (coord_z t) @ b @ show_nat (coord_x t) @ d @ show_int (tile_y t) @ e"
proof -
  from assms have a: "CHR ''{'' \<notin> set a" and b: "CHR ''{'' \<notin> set b"
    and d: "CHR ''{'' \<notin> set d" and e: "CHR ''{'' \<notin> set e" by auto
  have "substitute (tile_variables t) 0 (e @ []) = e @ substitute (tile_variables t) 0 []"
    using e by (rule substitute_plain)
  then have "substitute (tile_variables t) 0 e = e" by simp
  then show ?thesis
    by (simp only: substitute_plain [OF a] substitute_z substitute_plain [OF b] substitute_x
          substitute_plain [OF d] substitute_y)
qed

section \<open>Failure to open the file\<close>

text \<open>
  C6, as the code has it. \<^verbatim>\<open>isFileNotThereError\<close> holds of an error whose code is
  ENOENT and of one whose code is EPERM. When opening the file throws, \<^verbatim>\<open>validate\<close>
  compares the code with ENOENT alone: it reports "File not found" with the path for
  ENOENT, and "Not a valid ZIP file" with the message of the error for every other
  code, EPERM included.
\<close>

theorem validate_open_failure:
  assumes "fs_open E filepath = OpenError code message"
  shows "isFileNotThereError (ErrorWith (Some ''ENOENT'') message) \<and>
         isFileNotThereError (ErrorWith (Some ''EPERM'') message) \<and>
         (code = Some ''ENOENT'' \<longrightarrow>
            validate E filepath =
              Inr \<lparr>errors = [''File not found: '' @ filepath], warnings = [], valid = False\<rparr>) \<and>
         (code \<noteq> Some ''ENOENT'' \<longrightarrow>
            validate E filepath =
              Inr \<lparr>errors = [''Not a valid ZIP file: '' @ message], warnings = [],
                   valid = False\<rparr>)"
  using assms by (simp add: validate_def result_def)

theorem validate_open_failure_witness:
  "fs_open (env_of (OpenError (Some ''ENOENT'') ''no such file'') (Inl []) []) ''missing.smp'' =
     OpenError (Some ''ENOENT'') ''no such file'' \<and>
   validate (env_of (OpenError (Some ''ENOENT'') ''no such file'') (Inl []) []) ''missing.smp'' =
     Inr \<lparr>errors = [''File not found: missing.smp''], warnings = [], valid = False\<rparr>"
  using validate_open_failure
    [of "env_of (OpenError (Some ''ENOENT'') ''no such file'') (Inl []) []" "''missing.smp''"
        "Some ''ENOENT''" "''no such file''"]
  by (simp add: env_of_def)

text \<open>
  C6, as stated, fails: on an open error with code EPERM, which
  \<^verbatim>\<open>isFileNotThereError\<close> counts as not found, \<^verbatim>\<open>validate\<close> reports
  "Not a valid ZIP file" and no "File not found".
\<close>

theorem validate_eperm_counterexample:
  "isFileNotThereError (ErrorWith (Some ''EPERM'') ''operation not permitted'') \<and>
   validate (env_of (OpenError (Some ''EPERM'') ''operation not permitted'') (Inl []) [])
     ''locked.smp'' =
     Inr \<lparr>errors = [''Not a valid ZIP file: operation not permitted''], warnings = [],
          valid = False\<rparr>"
  by code_simp

section \<open>Rejection\<close>

text \<open>
  C5 fails on the code: \<^verbatim>\<open>validate\<close> rejects on an archive whose \<^verbatim>\<open>style.json\<close>
  holds the JSON text \<^verbatim>\<open>null\<close> (reading \<^verbatim>\<open>style.metadata\<close> throws), and on one
  whose style has \<^verbatim>\<open>"sprite": [null]\<close> (destructuring the element throws); neither
  read is inside a \<^verbatim>\<open>try\<close> with a \<^verbatim>\<open>catch\<close>.
\<close>

theorem validate_rejects:
  "validate
     (env_of (Opened (Some [entry_of ''VERSION'' ''1.0'', entry_of ''style.json'' ''null'']))
        (Inr JNull) [])
     ''a.smp'' = Inl TypeError \<and>
   validate
     (env_of (Opened (Some [entry_of ''VERSION'' ''1.0'', entry_of ''style.json'' ''{...}'']))
        (Inr (JObject [(''version'', JNumber 8), (''sources'', JObject []),
                       (''layers'', JArray []), (''sprite'', JArray [JNull])])) [])
     ''a.smp'' = Inl TypeError"
  by code_simp

section \<open>Claims on the validator\<close>

text \<open>
  C1, as the code has it. For an archive whose \<^verbatim>\<open>style.json\<close> parses and on which
  \<^verbatim>\<open>validate\<close> returns, with \<open>metadata\<close> standing for \<^verbatim>\<open>style.metadata || {}\<close>:
  the error "Missing or invalid smp:bounds" is reported exactly when \<^verbatim>\<open>smp:bounds\<close> is
  absent or is not an array of length 4; the error "smp:bounds values must be numbers"
  exactly when it is an array of length 4 with an element that is not a number; the error
  "Missing or invalid smp:maxzoom" exactly when \<^verbatim>\<open>smp:maxzoom\<close> is absent or not a
  number. Only \<^verbatim>\<open>smp:sourceFolders\<close> is reported as a warning, exactly when it is
  truthy and not an object, and never as an error. The result is valid exactly when it
  holds no error.
\<close>

theorem metadata_checked:
  assumes opened: "fs_open E fp = Opened (Some zs)"
    and entry: "map_of (build_entries zs) STYLE_FILE = Some se"
    and style: "read_style E se = Inr style"
    and ret: "validate E fp = Inr r"
  shows "(''Missing or invalid smp:bounds in style.json metadata'' \<in> set (errors r) \<longleftrightarrow>
            \<not> isArray (member (metadata_of style) ''smp:bounds'') \<or>
            length (elements (member (metadata_of style) ''smp:bounds'')) \<noteq> 4) \<and>
         (''smp:bounds values must be numbers'' \<in> set (errors r) \<longleftrightarrow>
            isArray (member (metadata_of style) ''smp:bounds'') \<and>
            length (elements (member (metadata_of style) ''smp:bounds'')) = 4 \<and>
            (\<exists>v \<in> set (elements (member (metadata_of style) ''smp:bounds'')).
               typeof v \<noteq> ''number'')) \<and>
         (''Missing or invalid smp:maxzoom in style.json metadata'' \<in> set (errors r) \<longleftrightarrow>
            typeof (member (metadata_of style) ''smp:maxzoom'') \<noteq> ''number'') \<and>
         (''Invalid smp:sourceFolders in style.json metadata'' \<in> set (warnings r) \<longleftrightarrow>
            truthy (member (metadata_of style) ''smp:sourceFolders'') \<and>
            typeof (member (metadata_of style) ''smp:sourceFolders'') \<noteq> ''object'') \<and>
         ''Invalid smp:sourceFolders in style.json metadata'' \<notin> set (errors r) \<and>
         valid r = (errors r = [])"
proof -
  note in_result = metadata_error_in_result [OF opened entry style ret]
  have 1: "''Missing or invalid smp:bounds in style.json metadata'' \<in> set (errors r) \<longleftrightarrow>
            \<not> isArray (member (metadata_of style) ''smp:bounds'') \<or>
            length (elements (member (metadata_of style) ''smp:bounds'')) \<noteq> 4"
    by (subst in_result) (simp_all add: check_metadata_errors_iff(1))
  have 2: "''smp:bounds values must be numbers'' \<in> set (errors r) \<longleftrightarrow>
            isArray (member (metadata_of style) ''smp:bounds'') \<and>
            length (elements (member (metadata_of style) ''smp:bounds'')) = 4 \<and>
            (\<exists>v \<in> set (elements (member (metadata_of style) ''smp:bounds'')).
               typeof v \<noteq> ''number'')"
    by (subst in_result) (simp_all add: check_metadata_errors_iff(2))
  have 3: "''Missing or invalid smp:maxzoom in style.json metadata'' \<in> set (errors r) \<longleftrightarrow>
            typeof (member (metadata_of style) ''smp:maxzoom'') \<noteq> ''number''"
    by (subst in_result) (simp_all add: check_metadata_errors_iff(3))
  have 4: "''Invalid smp:sourceFolders in style.json metadata'' \<in> set (warnings r) \<longleftrightarrow>
            truthy (member (metadata_of style) ''smp:sourceFolders'') \<and>
            typeof (member (metadata_of style) ''smp:sourceFolders'') \<noteq> ''object''"
    by (subst metadata_warning_in_result [OF opened entry style ret])
       (simp add: check_metadata_errors_iff(4))
  have 5: "''Invalid smp:sourceFolders in style.json metadata'' \<notin> set (errors r)"
    using check_metadata_reports(1) [of "metadata_of style"]
    by (subst in_result) auto
  have 6: "valid r = (errors r = [])"
    using validate_reports [OF opened entry style ret] by blast
  from 1 2 3 4 5 6 show ?thesis by blast
qed

theorem metadata_checked_witness:
  "fs_open (archive_env (archive_of (Some ''1.0'') []) (Inr no_bounds_style)) ''a.smp'' =
     Opened (Some (archive_of (Some ''1.0'') [])) \<and>
   map_of (build_entries (archive_of (Some ''1.0'') [])) STYLE_FILE =
     Some (entry_of ''style.json'' ''{}'') \<and>
   read_style (archive_env (archive_of (Some ''1.0'') []) (Inr no_bounds_style))
     (entry_of ''style.json'' ''{}'') = Inr no_bounds_style \<and>
   validate (archive_env (archive_of (Some ''1.0'') []) (Inr no_bounds_style)) ''a.smp'' =
     Inr \<lparr>errors = [''Missing or invalid smp:bounds in style.json metadata''],
          warnings = [''Invalid smp:sourceFolders in style.json metadata''], valid = False\<rparr> \<and>
   ''Invalid smp:sourceFolders in style.json metadata'' \<notin>
     set (errors \<lparr>errors = [''Missing or invalid smp:bounds in style.json metadata''],
          warnings = [''Invalid smp:sourceFolders in style.json metadata''], valid = False\<rparr>)"
proof -
  let ?zs = "archive_of (Some ''1.0'') []"
  let ?E = "archive_env ?zs (Inr no_bounds_style)"
  have h1: "fs_open ?E ''a.smp'' = Opened (Some ?zs)"
    by (simp add: archive_env_def env_of_def)
  have h2: "map_of (build_entries ?zs) STYLE_FILE = Some (entry_of ''style.json'' ''{}'')"
    by code_simp
  have h3: "read_style ?E (entry_of ''style.json'' ''{}'') = Inr no_bounds_style"
    by (simp add: read_style_def entry_of_def archive_env_def env_of_def)
  have h4: "validate ?E ''a.smp'' =
     Inr \<lparr>errors = [''Missing or invalid smp:bounds in style.json metadata''],
          warnings = [''Invalid smp:sourceFolders in style.json metadata''], valid = False\<rparr>"
    by code_simp
  have c: "''Invalid smp:sourceFolders in style.json metadata'' \<notin>
     set (errors \<lparr>errors = [''Missing or invalid smp:bounds in style.json metadata''],
          warnings = [''Invalid smp:sourceFolders in style.json metadata''], valid = False\<rparr>)"
    using metadata_checked [OF h1 h2 h3 h4] by (elim conjE)
  show ?thesis
    by (rule conjI h1 h2 h3 h4 c)+
qed

text \<open>
  C1, as stated, fails: with \<^verbatim>\<open>smp:bounds\<close> present as an array of four strings the
  malformation is reported as an error, there is no warning, and the package is invalid.
\<close>

theorem metadata_errors_counterexample:
  "validate (archive_env (archive_of (Some ''1.0'') []) (Inr bad_bounds_style)) ''a.smp'' =
     Inr \<lparr>errors = [''smp:bounds values must be numbers''], warnings = [], valid = False\<rparr>"
  by code_simp

text \<open>
  C2. On an opened archive: if no entry is named VERSION, the result of \<^verbatim>\<open>validate\<close>
  is the result of levels 3 to 8 with the warning "Missing VERSION file" before its
  warnings, its errors and its validity unchanged. If the trimmed text of the VERSION
  entry is not one or more digits, a dot and one or more digits (in particular when the
  text holds a character that is neither a digit, nor a dot, nor part of white space), it
  is that result with the error "Invalid version format" first and not valid. If the
  trimmed text is a major number \<open>n\<close>, written in decimal after any leading zeros, a dot
  and a string of digits, then for \<open>n\<close> other than 1 it is that result with the error
  "Unsupported major version" first and not valid, and for \<open>n = 1\<close>, whatever the minor
  version, it is that result itself. Every non-empty string of digits is such a major
  number, and the text 1.1 followed by a newline trims to major 1, minor 1.
\<close>

theorem version_checked:
  assumes opened: "fs_open E fp = Opened (Some zs)"
  shows "(VERSION_FILE \<notin> filename ` set zs \<longrightarrow>
            validate E fp =
              map_r (with_msgs \<lparr>errors = [], warnings = [''Missing VERSION file (assuming version 1.0)'']\<rparr>)
                (validate_style E (build_entries zs) no_msgs)) \<and>
         (\<forall>ve text. map_of (build_entries zs) VERSION_FILE = Some ve \<and> content ve = Inr text \<longrightarrow>
            (\<not> (\<exists>major minor. trim text = major @ ''.'' @ minor \<and> major \<noteq> [] \<and> minor \<noteq> [] \<and>
                   list_all is_digit major \<and> list_all is_digit minor) \<longrightarrow>
               validate E fp =
                 map_r (with_msgs \<lparr>errors = [''Invalid version format: '' @ dq @ trim text @ dq @
                                              '' (expected MAJOR.MINOR)''], warnings = []\<rparr>)
                   (validate_style E (build_entries zs) no_msgs)) \<and>
            ((\<exists>c \<in> set text. \<not> is_digit c \<and> c \<noteq> CHR ''.'' \<and>
                   (\<forall>w \<in> set js_whitespace. c \<notin> set w)) \<longrightarrow>
               validate E fp =
                 map_r (with_msgs \<lparr>errors = [''Invalid version format: '' @ dq @ trim text @ dq @
                                              '' (expected MAJOR.MINOR)''], warnings = []\<rparr>)
                   (validate_style E (build_entries zs) no_msgs)) \<and>
            (\<forall>k n minor. trim text = (replicate k CHR ''0'' @ show_nat n) @ ''.'' @ minor \<and>
                   minor \<noteq> [] \<and> list_all is_digit minor \<longrightarrow>
               (n \<noteq> 1 \<longrightarrow>
                  validate E fp =
                    map_r (with_msgs \<lparr>errors = [''Unsupported major version: '' @
                              String_of_number E n @ '' (supported: '' @
                              String_of_number E 1 @ '')''], warnings = []\<rparr>)
                      (validate_style E (build_entries zs) no_msgs)) \<and>
               (n = 1 \<longrightarrow>
                  validate E fp = validate_style E (build_entries zs) no_msgs))) \<and>
         (\<forall>major. major \<noteq> [] \<and> list_all is_digit major \<longrightarrow>
            (\<exists>k n. major = replicate k CHR ''0'' @ show_nat n)) \<and>
         trim (''1.1'' @ [CHR 0x0A]) = (replicate 0 CHR ''0'' @ show_nat 1) @ ''.'' @ ''1''"
proof -
  let ?es = "build_entries zs"
  let ?invalid = "\<lambda>body. map_r (with_msgs \<lparr>errors = [''Invalid version format: '' @ dq @ trim body @ dq @
                                              '' (expected MAJOR.MINOR)''], warnings = []\<rparr>)
                   (validate_style E ?es no_msgs)"
  have v: "validate E fp = bind_r (level2 E ?es no_msgs) (validate_style E ?es)"
    using opened by (simp add: validate_def validate_entries_def Let_def)
  have A: "validate E fp =
              map_r (with_msgs \<lparr>errors = [], warnings = [''Missing VERSION file (assuming version 1.0)'']\<rparr>)
                (validate_style E ?es no_msgs)" if "VERSION_FILE \<notin> filename ` set zs"
  proof -
    from that have "map_of ?es VERSION_FILE = None"
      by (simp add: map_of_build_entries_None)
    then have "level2 E ?es no_msgs = Inr (push_warning ''Missing VERSION file (assuming version 1.0)'' no_msgs)"
      by (rule level2_absent)
    moreover have "push_warning ''Missing VERSION file (assuming version 1.0)'' no_msgs =
       \<lparr>errors = [], warnings = [''Missing VERSION file (assuming version 1.0)'']\<rparr>"
      by (simp add: push_warning_def no_msgs_def)
    ultimately show ?thesis
      using validate_style_delta
        [of E ?es "\<lparr>errors = [], warnings = [''Missing VERSION file (assuming version 1.0)'']\<rparr>"]
      by (simp add: v)
  qed
  have B: "validate E fp = map_r (with_msgs \<lparr>errors = [m], warnings = []\<rparr>) (validate_style E ?es no_msgs)"
    if "level2 E ?es no_msgs = Inr (push_error m no_msgs)" for m
  proof -
    have "push_error m no_msgs = \<lparr>errors = [m], warnings = []\<rparr>"
      by (simp add: push_error_def no_msgs_def)
    with that show ?thesis
      using validate_style_delta [of E ?es "\<lparr>errors = [m], warnings = []\<rparr>"]
      by (simp add: v)
  qed
  have I: "validate E fp = ?invalid body"
    if ve: "map_of ?es VERSION_FILE = Some ve" "content ve = Inr body"
      and g: "\<not> (\<exists>major minor. trim body = major @ ''.'' @ minor \<and> major \<noteq> [] \<and> minor \<noteq> [] \<and>
                   list_all is_digit major \<and> list_all is_digit minor)" for ve body
  proof -
    from g have "version_match (trim body) = None"
      unfolding version_match_None_iff .
    then have "level2 E ?es no_msgs = Inr (push_error (''Invalid version format: '' @ dq @ trim body @ dq @
                 '' (expected MAJOR.MINOR)'') no_msgs)"
      by (simp add: level2_present [OF ve])
    then show ?thesis by (rule B)
  qed
  have L: "validate E fp = ?invalid body"
    if ve: "map_of ?es VERSION_FILE = Some ve" "content ve = Inr body"
      and c: "\<exists>c \<in> set body. \<not> is_digit c \<and> c \<noteq> CHR ''.'' \<and>
                   (\<forall>w \<in> set js_whitespace. c \<notin> set w)" for ve body
  proof -
    from c obtain c where c: "c \<in> set body" "\<not> is_digit c" "c \<noteq> CHR ''.''"
      "\<forall>w \<in> set js_whitespace. c \<notin> set w" by blast
    then have t: "c \<in> set (trim body)"
      by (intro trim_keeps)
    have "\<not> (\<exists>major minor. trim body = major @ ''.'' @ minor \<and> major \<noteq> [] \<and> minor \<noteq> [] \<and>
                   list_all is_digit major \<and> list_all is_digit minor)"
    proof
      assume "\<exists>major minor. trim body = major @ ''.'' @ minor \<and> major \<noteq> [] \<and> minor \<noteq> [] \<and>
                   list_all is_digit major \<and> list_all is_digit minor"
      then obtain major minor where "trim body = major @ ''.'' @ minor"
        "list_all is_digit major" "list_all is_digit minor" by blast
      from grammar_chars [OF this t] c(2,3) show False by blast
    qed
    with ve show ?thesis by (rule I)
  qed
  have M: "(n \<noteq> 1 \<longrightarrow>
                  validate E fp =
                    map_r (with_msgs \<lparr>errors = [''Unsupported major version: '' @
                              String_of_number E n @ '' (supported: '' @
                              String_of_number E 1 @ '')''], warnings = []\<rparr>)
                      (validate_style E ?es no_msgs)) \<and>
               (n = 1 \<longrightarrow> validate E fp = validate_style E ?es no_msgs)"
    if ve: "map_of ?es VERSION_FILE = Some ve" "content ve = Inr body"
      and t: "trim body = (replicate k CHR ''0'' @ show_nat n) @ ''.'' @ minor"
      and minor: "minor \<noteq> []" "list_all is_digit minor" for ve body k n minor
  proof -
    let ?major = "replicate k CHR ''0'' @ show_nat n"
    have z: "is_digit CHR ''0''" by (simp add: is_digit_def)
    have d: "?major \<noteq> []" "list_all is_digit ?major"
      using show_nat_digits [of n] z by (auto simp: list_all_iff)
    have m: "version_match (?major @ ''.'' @ minor) = Some ?major"
      using d(1) minor(1) d(2) minor(2) by (rule version_match_digits)
    have p: "parseInt ?major = n"
      by (simp only: parseInt_zeros parseInt_show_nat)
    have l2: "level2 E ?es no_msgs =
       (if n = 1 then Inr no_msgs
        else Inr (push_error (''Unsupported major version: '' @ String_of_number E n @
                  '' (supported: '' @ String_of_number E 1 @ '')'') no_msgs))"
      using level2_present [OF ve, of E no_msgs] unfolding t m by (simp add: p)
    show ?thesis
    proof (cases "n = 1")
      case True
      with l2 show ?thesis by (simp add: v)
    next
      case False
      with l2 have "level2 E ?es no_msgs = Inr (push_error (''Unsupported major version: '' @
          String_of_number E n @ '' (supported: '' @ String_of_number E 1 @ '')'') no_msgs)"
        by simp
      from B [OF this] False show ?thesis by simp
    qed
  qed
  have D: "\<forall>major. major \<noteq> [] \<and> list_all is_digit major \<longrightarrow>
            (\<exists>k n. major = replicate k CHR ''0'' @ show_nat n)"
    using digits_decompose by blast
  have T: "trim (''1.1'' @ [CHR 0x0A]) = (replicate 0 CHR ''0'' @ show_nat 1) @ ''.'' @ ''1''"
    by code_simp
  show ?thesis
    using A I L M D T by blast
qed

theorem version_checked_witness:
  "fs_open (version_env ''abc'') ''a.smp'' = Opened (Some (version_archive ''abc'')) \<and>
   map_of (build_entries (version_archive ''abc'')) VERSION_FILE =
     Some (entry_of ''VERSION'' (''abc'' @ [CHR 0x0A])) \<and>
   content (entry_of ''VERSION'' (''abc'' @ [CHR 0x0A])) = Inr (''abc'' @ [CHR 0x0A]) \<and>
   validate (version_env ''abc'') ''a.smp'' =
     map_r (with_msgs \<lparr>errors = [''Invalid version format: '' @ dq @ trim (''abc'' @ [CHR 0x0A]) @ dq @
                                  '' (expected MAJOR.MINOR)''], warnings = []\<rparr>)
       (validate_style (version_env ''abc'') (build_entries (version_archive ''abc'')) no_msgs) \<and>
   validate (version_env ''abc'') ''a.smp'' =
     Inr \<lparr>errors = [''Invalid version format: '' @ dq @ ''abc'' @ dq @ '' (expected MAJOR.MINOR)''],
          warnings = [], valid = False\<rparr> \<and>
   fs_open (version_env ''2.0'') ''a.smp'' = Opened (Some (version_archive ''2.0'')) \<and>
   map_of (build_entries (version_archive ''2.0'')) VERSION_FILE =
     Some (entry_of ''VERSION'' (''2.0'' @ [CHR 0x0A])) \<and>
   trim (''2.0'' @ [CHR 0x0A]) = (replicate 0 CHR ''0'' @ show_nat 2) @ ''.'' @ ''0'' \<and>
   validate (version_env ''2.0'') ''a.smp'' =
     map_r (with_msgs \<lparr>errors = [''Unsupported major version: '' @
                String_of_number (version_env ''2.0'') 2 @ '' (supported: '' @
                String_of_number (version_env ''2.0'') 1 @ '')''], warnings = []\<rparr>)
       (validate_style (version_env ''2.0'') (build_entries (version_archive ''2.0'')) no_msgs) \<and>
   validate (version_env ''2.0'') ''a.smp'' =
     Inr \<lparr>errors = [''Unsupported major version: 2 (supported: 1)''], warnings = [],
          valid = False\<rparr> \<and>
   fs_open (version_env ''1.1'') ''a.smp'' = Opened (Some (version_archive ''1.1'')) \<and>
   map_of (build_entries (version_archive ''1.1'')) VERSION_FILE =
     Some (entry_of ''VERSION'' (''1.1'' @ [CHR 0x0A])) \<and>
   trim (''1.1'' @ [CHR 0x0A]) = (replicate 0 CHR ''0'' @ show_nat 1) @ ''.'' @ ''1'' \<and>
   validate (version_env ''1.1'') ''a.smp'' =
     validate_style (version_env ''1.1'') (build_entries (version_archive ''1.1'')) no_msgs \<and>
   validate (version_env ''1.1'') ''a.smp'' = Inr \<lparr>errors = [], warnings = [], valid = True\<rparr> \<and>
   validate (archive_env (archive_of None []) (Inr plain_style)) ''a.smp'' =
     Inr \<lparr>errors = [], warnings = [''Missing VERSION file (assuming version 1.0)''],
          valid = True\<rparr>"
proof -
  have c: "content (entry_of ''VERSION'' v) = Inr v" for v
    by (simp add: entry_of_def)
  have a1: "fs_open (version_env ''abc'') ''a.smp'' = Opened (Some (version_archive ''abc''))"
    by (simp add: version_env_def archive_env_def env_of_def)
  have a2: "map_of (build_entries (version_archive ''abc'')) VERSION_FILE =
     Some (entry_of ''VERSION'' (''abc'' @ [CHR 0x0A]))"
    by code_simp
  have a3: "content (entry_of ''VERSION'' (''abc'' @ [CHR 0x0A])) = Inr (''abc'' @ [CHR 0x0A])"
    by (rule c)
  have "version_match (trim (''abc'' @ [CHR 0x0A])) = None"
    by code_simp
  then have a4: "\<not> (\<exists>major minor. trim (''abc'' @ [CHR 0x0A]) = major @ ''.'' @ minor \<and>
      major \<noteq> [] \<and> minor \<noteq> [] \<and> list_all is_digit major \<and> list_all is_digit minor)"
    unfolding version_match_None_iff .
  have a5: "validate (version_env ''abc'') ''a.smp'' =
     map_r (with_msgs \<lparr>errors = [''Invalid version format: '' @ dq @ trim (''abc'' @ [CHR 0x0A]) @ dq @
                                  '' (expected MAJOR.MINOR)''], warnings = []\<rparr>)
       (validate_style (version_env ''abc'') (build_entries (version_archive ''abc'')) no_msgs)"
    by (rule version_checked [OF a1, THEN conjunct2, THEN conjunct1, THEN spec, THEN spec,
          THEN mp, OF conjI [OF a2 a3], THEN conjunct1, THEN mp, OF a4])
  have a6: "validate (version_env ''abc'') ''a.smp'' =
     Inr \<lparr>errors = [''Invalid version format: '' @ dq @ ''abc'' @ dq @ '' (expected MAJOR.MINOR)''],
          warnings = [], valid = False\<rparr>"
    by code_simp
  have b1: "fs_open (version_env ''2.0'') ''a.smp'' = Opened (Some (version_archive ''2.0''))"
    by (simp add: version_env_def archive_env_def env_of_def)
  have b2: "map_of (build_entries (version_archive ''2.0'')) VERSION_FILE =
     Some (entry_of ''VERSION'' (''2.0'' @ [CHR 0x0A]))"
    by code_simp
  have b3: "trim (''2.0'' @ [CHR 0x0A]) = (replicate 0 CHR ''0'' @ show_nat 2) @ ''.'' @ ''0''"
    by code_simp
  have b4: "''0'' \<noteq> [] \<and> list_all is_digit ''0''"
    by (simp add: is_digit_def)
  have b5: "(2::nat) \<noteq> 1"
    by simp
  have b6: "validate (version_env ''2.0'') ''a.smp'' =
     map_r (with_msgs \<lparr>errors = [''Unsupported major version: '' @
                String_of_number (version_env ''2.0'') 2 @ '' (supported: '' @
                String_of_number (version_env ''2.0'') 1 @ '')''], warnings = []\<rparr>)
       (validate_style (version_env ''2.0'') (build_entries (version_archive ''2.0'')) no_msgs)"
    by (rule version_checked [OF b1, THEN conjunct2, THEN conjunct1, THEN spec, THEN spec,
          THEN mp, OF conjI [OF b2 c], THEN conjunct2, THEN conjunct2, THEN spec, THEN spec,
          THEN spec, THEN mp, OF conjI [OF b3 b4], THEN conjunct1, THEN mp, OF b5])
  have b7: "validate (version_env ''2.0'') ''a.smp'' =
     Inr \<lparr>errors = [''Unsupported major version: 2 (supported: 1)''], warnings = [],
          valid = False\<rparr>"
    by code_simp
  have d1: "fs_open (version_env ''1.1'') ''a.smp'' = Opened (Some (version_archive ''1.1''))"
    by (simp add: version_env_def archive_env_def env_of_def)
  have d2: "map_of (build_entries (version_archive ''1.1'')) VERSION_FILE =
     Some (entry_of ''VERSION'' (''1.1'' @ [CHR 0x0A]))"
    by code_simp
  have d3: "trim (''1.1'' @ [CHR 0x0A]) = (replicate 0 CHR ''0'' @ show_nat 1) @ ''.'' @ ''1''"
    by code_simp
  have d4: "''1'' \<noteq> [] \<and> list_all is_digit ''1''"
    by (simp add: is_digit_def)
  have d5: "validate (version_env ''1.1'') ''a.smp'' =
     validate_style (version_env ''1.1'') (build_entries (version_archive ''1.1'')) no_msgs"
    by (rule version_checked [OF d1, THEN conjunct2, THEN conjunct1, THEN spec, THEN spec,
          THEN mp, OF conjI [OF d2 c], THEN conjunct2, THEN conjunct2, THEN spec, THEN spec,
          THEN spec, THEN mp, OF conjI [OF d3 d4], THEN conjunct2, THEN mp, OF refl])
  have d6: "validate (version_env ''1.1'') ''a.smp'' = Inr \<lparr>errors = [], warnings = [], valid = True\<rparr>"
    by code_simp
  have e: "validate (archive_env (archive_of None []) (Inr plain_style)) ''a.smp'' =
     Inr \<lparr>errors = [], warnings = [''Missing VERSION file (assuming version 1.0)''],
          valid = True\<rparr>"
    by code_simp
  show ?thesis
    by (rule conjI a1 a2 a3 a5 a6 b1 b2 b3 b6 b7 d1 d2 d3 d5 d6 e)+
qed

text \<open>
  C3. For an archive whose \<^verbatim>\<open>style.json\<close> parses and on which \<^verbatim>\<open>validate\<close> returns:
  the errors of the result that begin with "No tile files found for source" are, in order,
  exactly one for each internal tile template (a string of a source's \<^verbatim>\<open>tiles\<close> that
  begins with \<^verbatim>\<open>smp://maps.v1/\<close> and contains \<^verbatim>\<open>{z}\<close>) such that no entry's filename
  starts with the template's path before \<^verbatim>\<open>{z}\<close>, each naming the source and that path;
  so a template with a matching entry contributes none, and one without has its error
  among the errors of the result.
\<close>

theorem tile_files_checked:
  assumes opened: "fs_open E fp = Opened (Some zs)"
    and entry: "map_of (build_entries zs) STYLE_FILE = Some se"
    and style: "read_style E se = Inr style"
    and ret: "validate E fp = Inr r"
  shows "filter (prefix ''No tile files found for source '') (errors r) =
           missing_tiles (map filename zs) (internal_templates style) \<and>
         (\<forall>(sourceId, tilePrefix) \<in> set (internal_templates style).
            \<not> (\<exists>f \<in> set (map filename zs). prefix tilePrefix f) \<longrightarrow>
            tile_error sourceId tilePrefix \<in> set (errors r))"
proof -
  let ?P = "prefix ''No tile files found for source ''"
  from validate_reports [OF opened entry style ret] obtain d2 e7 where
    d2: "level2 E (build_entries zs) no_msgs = Inr d2" and
    e7: "set e7 \<subseteq> {''style.json references glyphs but no glyph files found''}" and
    e: "errors r = errors d2 @ map (\<lambda>e. ''style.json: '' @ e) (validateStyleMin E style) @
                errors (check_metadata (metadata_of style) no_msgs) @
                missing_tiles (map filename zs) (internal_templates style) @ e7 @
                concat (map (sprite_errors (map filename zs)) (internal_sprites style))"
    by blast
  have 2: "filter ?P (errors d2) = []"
  proof (rule filter_eq_Nil)
    fix x assume "x \<in> set (errors d2)"
    with level2_reports [OF d2] have "prefix ''Invalid version format: '' x \<or>
            prefix ''Unsupported major version: '' x" by blast
    then show "\<not> ?P x"
      by (auto dest: prefix_same_cases)
  qed
  have 4: "filter ?P (map (\<lambda>e. ''style.json: '' @ e) (validateStyleMin E style)) = []"
    by (rule filter_eq_Nil) auto
  have 5: "filter ?P (errors (check_metadata (metadata_of style) no_msgs)) = []"
    using check_metadata_reports(1) [of "metadata_of style"] by (intro filter_eq_Nil) auto
  have 6: "filter ?P (missing_tiles (map filename zs) (internal_templates style)) =
           missing_tiles (map filename zs) (internal_templates style)"
    by (rule filter_eq_self) (rule missing_tiles_form)
  have 7: "filter ?P e7 = []"
    using e7 by (intro filter_eq_Nil) auto
  have 8: "filter ?P (concat (map (sprite_errors (map filename zs)) (internal_sprites style))) = []"
  proof (rule filter_eq_Nil)
    fix x assume "x \<in> set (concat (map (sprite_errors (map filename zs)) (internal_sprites style)))"
    then have "prefix ''Missing sprite file: '' x" by (rule sprite_errors_form)
    then show "\<not> ?P x"
      by (auto dest: prefix_same_cases)
  qed
  have A: "filter ?P (errors r) = missing_tiles (map filename zs) (internal_templates style)"
    by (simp only: e filter_append 2 4 5 6 7 8 append_Nil append_Nil2)
  have B: "tile_error i p \<in> set (errors r)"
    if "(i, p) \<in> set (internal_templates style)" "\<not> (\<exists>f \<in> set (map filename zs). prefix p f)" for i p
  proof -
    from that have "tile_error i p \<in> set (missing_tiles (map filename zs) (internal_templates style))"
      by (force simp: missing_tiles_def)
    then show ?thesis by (simp add: e)
  qed
  from A B show ?thesis by blast
qed

theorem tile_files_checked_witness:
  "fs_open (archive_env (archive_of (Some ''1.0'') []) (Inr tiles_style)) ''a.smp'' =
     Opened (Some (archive_of (Some ''1.0'') [])) \<and>
   map_of (build_entries (archive_of (Some ''1.0'') [])) STYLE_FILE =
     Some (entry_of ''style.json'' ''{}'') \<and>
   read_style (archive_env (archive_of (Some ''1.0'') []) (Inr tiles_style))
     (entry_of ''style.json'' ''{}'') = Inr tiles_style \<and>
   validate (archive_env (archive_of (Some ''1.0'') []) (Inr tiles_style)) ''a.smp'' =
     Inr \<lparr>errors = [tile_error ''test'' ''s/0/''], warnings = [], valid = False\<rparr> \<and>
   filter (prefix ''No tile files found for source '')
     (errors \<lparr>errors = [tile_error ''test'' ''s/0/''], warnings = [], valid = False\<rparr>) =
     missing_tiles (map filename (archive_of (Some ''1.0'') [])) (internal_templates tiles_style) \<and>
   missing_tiles (map filename (archive_of (Some ''1.0'') [])) (internal_templates tiles_style) =
     [tile_error ''test'' ''s/0/'']"
proof -
  let ?zs = "archive_of (Some ''1.0'') []"
  let ?E = "archive_env ?zs (Inr tiles_style)"
  have h1: "fs_open ?E ''a.smp'' = Opened (Some ?zs)"
    by (simp add: archive_env_def env_of_def)
  have h2: "map_of (build_entries ?zs) STYLE_FILE = Some (entry_of ''style.json'' ''{}'')"
    by code_simp
  have h3: "read_style ?E (entry_of ''style.json'' ''{}'') = Inr tiles_style"
    by (simp add: read_style_def entry_of_def archive_env_def env_of_def)
  have h4: "validate ?E ''a.smp'' =
     Inr \<lparr>errors = [tile_error ''test'' ''s/0/''], warnings = [], valid = False\<rparr>"
    by code_simp
  have c: "filter (prefix ''No tile files found for source '')
     (errors \<lparr>errors = [tile_error ''test'' ''s/0/''], warnings = [], valid = False\<rparr>) =
     missing_tiles (map filename ?zs) (internal_templates tiles_style)"
    using tile_files_checked [OF h1 h2 h3 h4] by (rule conjunct1)
  have m: "missing_tiles (map filename ?zs) (internal_templates tiles_style) =
     [tile_error ''test'' ''s/0/'']"
    by code_simp
  show ?thesis
    by (rule conjI h1 h2 h3 h4 c m)+
qed

text \<open>
  C4. For an archive whose \<^verbatim>\<open>style.json\<close> parses and on which \<^verbatim>\<open>validate\<close> returns:
  the errors that begin with "Missing sprite file" are, for each internal sprite in order
  (the string form of \<^verbatim>\<open>sprite\<close>, or the \<^verbatim>\<open>url\<close> of each array element), one for a
  missing \<^verbatim>\<open>.json\<close> entry and one for a missing \<^verbatim>\<open>.png\<close> entry; the warnings that
  begin with "Missing @2x sprite for" are one for each internal sprite that lacks the
  \<^verbatim>\<open>@2x.json\<close> or the \<^verbatim>\<open>@2x.png\<close> entry; and the result is valid exactly when it
  holds no error, so that missing \<^verbatim>\<open>@2x\<close> files alone leave it valid.
\<close>

theorem sprite_files_checked:
  assumes opened: "fs_open E fp = Opened (Some zs)"
    and entry: "map_of (build_entries zs) STYLE_FILE = Some se"
    and style: "read_style E se = Inr style"
    and ret: "validate E fp = Inr r"
  shows "filter (prefix ''Missing sprite file: '') (errors r) =
           concat (map (sprite_errors (map filename zs)) (internal_sprites style)) \<and>
         filter (prefix ''Missing @2x sprite for '') (warnings r) =
           concat (map (sprite_warnings (map filename zs)) (internal_sprites style)) \<and>
         valid r = (errors r = [])"
proof -
  let ?P = "prefix ''Missing sprite file: ''"
  let ?Q = "prefix ''Missing @2x sprite for ''"
  from validate_reports [OF opened entry style ret] obtain d2 e7 where
    d2: "level2 E (build_entries zs) no_msgs = Inr d2" and
    e7: "set e7 \<subseteq> {''style.json references glyphs but no glyph files found''}" and
    e: "errors r = errors d2 @ map (\<lambda>e. ''style.json: '' @ e) (validateStyleMin E style) @
                errors (check_metadata (metadata_of style) no_msgs) @
                missing_tiles (map filename zs) (internal_templates style) @ e7 @
                concat (map (sprite_errors (map filename zs)) (internal_sprites style))" and
    w: "warnings r = warnings d2 @ warnings (check_metadata (metadata_of style) no_msgs) @
                  concat (map (sprite_warnings (map filename zs)) (internal_sprites style))" and
    v: "valid r = (errors r = [])"
    by blast
  have 2: "filter ?P (errors d2) = []"
  proof (rule filter_eq_Nil)
    fix x assume "x \<in> set (errors d2)"
    with level2_reports [OF d2] have "prefix ''Invalid version format: '' x \<or>
            prefix ''Unsupported major version: '' x" by blast
    then show "\<not> ?P x"
      by (auto dest: prefix_same_cases)
  qed
  have 4: "filter ?P (map (\<lambda>e. ''style.json: '' @ e) (validateStyleMin E style)) = []"
    by (rule filter_eq_Nil) auto
  have 5: "filter ?P (errors (check_metadata (metadata_of style) no_msgs)) = []"
    using check_metadata_reports(1) [of "metadata_of style"] by (intro filter_eq_Nil) auto
  have 6: "filter ?P (missing_tiles (map filename zs) (internal_templates style)) = []"
  proof (rule filter_eq_Nil)
    fix x assume "x \<in> set (missing_tiles (map filename zs) (internal_templates style))"
    then have "prefix ''No tile files found for source '' x" by (rule missing_tiles_form)
    then show "\<not> ?P x"
      by (auto dest: prefix_same_cases)
  qed
  have 7: "filter ?P e7 = []"
    using e7 by (intro filter_eq_Nil) auto
  have 8: "filter ?P (concat (map (sprite_errors (map filename zs)) (internal_sprites style))) =
           concat (map (sprite_errors (map filename zs)) (internal_sprites style))"
    by (rule filter_eq_self) (rule sprite_errors_form)
  have A: "filter ?P (errors r) =
             concat (map (sprite_errors (map filename zs)) (internal_sprites style))"
    by (simp only: e filter_append 2 4 5 6 7 8 append_Nil append_Nil2)
  have w2: "filter ?Q (warnings d2) = []"
    using level2_reports [OF d2] by (intro filter_eq_Nil) auto
  have w5: "filter ?Q (warnings (check_metadata (metadata_of style) no_msgs)) = []"
    using check_metadata_reports(2) [of "metadata_of style"] by (intro filter_eq_Nil) auto
  have w8: "filter ?Q (concat (map (sprite_warnings (map filename zs)) (internal_sprites style))) =
            concat (map (sprite_warnings (map filename zs)) (internal_sprites style))"
    by (rule filter_eq_self) (rule sprite_warnings_form)
  have B: "filter ?Q (warnings r) =
             concat (map (sprite_warnings (map filename zs)) (internal_sprites style))"
    by (simp only: w filter_append w2 w5 w8 append_Nil append_Nil2)
  from A B v show ?thesis by blast
qed

theorem sprite_files_checked_witness:
  "fs_open (archive_env sprite_archive (Inr sprite_style)) ''a.smp'' = Opened (Some sprite_archive) \<and>
   map_of (build_entries sprite_archive) STYLE_FILE = Some (entry_of ''style.json'' ''{}'') \<and>
   read_style (archive_env sprite_archive (Inr sprite_style)) (entry_of ''style.json'' ''{}'') =
     Inr sprite_style \<and>
   validate (archive_env sprite_archive (Inr sprite_style)) ''a.smp'' =
     Inr \<lparr>errors = [],
          warnings = [''Missing @2x sprite for '' @ dq @ ''sprites/default/sprite'' @ dq @
                      '' (recommended but not required)''],
          valid = True\<rparr> \<and>
   filter (prefix ''Missing sprite file: '')
     (errors \<lparr>errors = [],
          warnings = [''Missing @2x sprite for '' @ dq @ ''sprites/default/sprite'' @ dq @
                      '' (recommended but not required)''],
          valid = True\<rparr>) =
     concat (map (sprite_errors (map filename sprite_archive)) (internal_sprites sprite_style)) \<and>
   internal_sprites sprite_style = [''sprites/default/sprite'']"
proof -
  let ?E = "archive_env sprite_archive (Inr sprite_style)"
  have h1: "fs_open ?E ''a.smp'' = Opened (Some sprite_archive)"
    by (simp add: archive_env_def env_of_def)
  have h2: "map_of (build_entries sprite_archive) STYLE_FILE = Some (entry_of ''style.json'' ''{}'')"
    by code_simp
  have h3: "read_style ?E (entry_of ''style.json'' ''{}'') = Inr sprite_style"
    by (simp add: read_style_def entry_of_def archive_env_def env_of_def)
  have h4: "validate ?E ''a.smp'' =
     Inr \<lparr>errors = [],
          warnings = [''Missing @2x sprite for '' @ dq @ ''sprites/default/sprite'' @ dq @
                      '' (recommended but not required)''],
          valid = True\<rparr>"
    by code_simp
  have c: "filter (prefix ''Missing sprite file: '')
     (errors \<lparr>errors = [],
          warnings = [''Missing @2x sprite for '' @ dq @ ''sprites/default/sprite'' @ dq @
                      '' (recommended but not required)''],
          valid = True\<rparr>) =
     concat (map (sprite_errors (map filename sprite_archive)) (internal_sprites sprite_style))"
    using sprite_files_checked [OF h1 h2 h3 h4] by (rule conjunct1)
  have s: "internal_sprites sprite_style = [''sprites/default/sprite'']"
    by code_simp
  show ?thesis
    by (rule conjI h1 h2 h3 h4 c s)+
qed

text \<open>
  C9. When the \<^verbatim>\<open>style.json\<close> entry exists and reading or parsing it throws, and
  level 2 has completed with the messages \<open>st2\<close>, \<^verbatim>\<open>validate\<close> returns at once: not
  valid, its errors those of level 2 followed by "style.json is not valid JSON" with the
  message of what was thrown, its warnings those of level 2. The errors of level 2 are
  version errors and its warnings the missing-VERSION warning, so no message of levels 5
  to 8 is in the result.
\<close>

theorem invalid_json_stops:
  assumes opened: "fs_open E fp = Opened (Some zs)"
    and entry: "map_of (build_entries zs) STYLE_FILE = Some se"
    and style: "read_style E se = Inl message"
    and version: "level2 E (build_entries zs) no_msgs = Inr st2"
  shows "validate E fp =
           Inr \<lparr>errors = errors st2 @ [''style.json is not valid JSON: '' @ message],
                warnings = warnings st2, valid = False\<rparr> \<and>
         (\<forall>e \<in> set (errors st2). prefix ''Invalid version format: '' e \<or>
            prefix ''Unsupported major version: '' e) \<and>
         set (warnings st2) \<subseteq> {''Missing VERSION file (assuming version 1.0)''}"
  using assms level2_reports [OF version]
  by (simp add: validate_def validate_entries_def validate_style_def result_def Let_def)

theorem invalid_json_stops_witness:
  "fs_open (archive_env (archive_of (Some ''1.0'') []) (Inl ''Unexpected token'')) ''a.smp'' =
     Opened (Some (archive_of (Some ''1.0'') [])) \<and>
   map_of (build_entries (archive_of (Some ''1.0'') [])) STYLE_FILE =
     Some (entry_of ''style.json'' ''{}'') \<and>
   read_style (archive_env (archive_of (Some ''1.0'') []) (Inl ''Unexpected token''))
     (entry_of ''style.json'' ''{}'') = Inl ''Unexpected token'' \<and>
   level2 (archive_env (archive_of (Some ''1.0'') []) (Inl ''Unexpected token''))
     (build_entries (archive_of (Some ''1.0'') [])) no_msgs = Inr no_msgs \<and>
   validate (archive_env (archive_of (Some ''1.0'') []) (Inl ''Unexpected token'')) ''a.smp'' =
     Inr \<lparr>errors = errors no_msgs @ [''style.json is not valid JSON: '' @ ''Unexpected token''],
          warnings = warnings no_msgs, valid = False\<rparr>"
proof -
  let ?zs = "archive_of (Some ''1.0'') []"
  let ?E = "archive_env ?zs (Inl ''Unexpected token'')"
  have h1: "fs_open ?E ''a.smp'' = Opened (Some ?zs)"
    by (simp add: archive_env_def env_of_def)
  have h2: "map_of (build_entries ?zs) STYLE_FILE = Some (entry_of ''style.json'' ''{}'')"
    by code_simp
  have h3: "read_style ?E (entry_of ''style.json'' ''{}'') = Inl ''Unexpected token''"
    by (simp add: read_style_def entry_of_def archive_env_def env_of_def)
  have h4: "level2 ?E (build_entries ?zs) no_msgs = Inr no_msgs"
    by code_simp
  have c: "validate ?E ''a.smp'' =
     Inr \<lparr>errors = errors no_msgs @ [''style.json is not valid JSON: '' @ ''Unexpected token''],
          warnings = warnings no_msgs, valid = False\<rparr>"
    using invalid_json_stops [OF h1 h2 h3 h4] by (rule conjunct1)
  show ?thesis
    by (rule conjI h1 h2 h3 h4 c)+
qed

text \<open>
  C10. When the text of the VERSION entry is a string of digits, a dot and a string of
  digits, with any sequence of JavaScript white space before and after (a missing
  newline, CRLF, blank lines), trimming gives back the digits, the dot and the digits, the
  grammar is matched, and no error of the result begins with "Invalid version format".
\<close>

theorem version_trimmed:
  assumes opened: "fs_open E fp = Opened (Some zs)"
    and entry: "map_of (build_entries zs) VERSION_FILE = Some ve"
    and body: "content ve = Inr (concat pre @ major @ ''.'' @ minor @ concat post)"
    and pre: "set pre \<subseteq> set js_whitespace" and post: "set post \<subseteq> set js_whitespace"
    and major: "major \<noteq> []" "list_all is_digit major"
    and minor: "minor \<noteq> []" "list_all is_digit minor"
    and ret: "validate E fp = Inr r"
  shows "trim (concat pre @ major @ ''.'' @ minor @ concat post) = major @ ''.'' @ minor \<and>
         version_match (major @ ''.'' @ minor) = Some major \<and>
         \<not> (\<exists>e \<in> set (errors r). prefix ''Invalid version format'' e)"
proof -
  let ?es = "build_entries zs"
  from major obtain c ms where c: "major = c # ms" "is_digit c"
    by (cases major) auto
  from minor obtain ns d where d: "minor = ns @ [d]" "is_digit d"
    by (cases minor rule: rev_cases) auto
  have "trim (concat pre @ (c # (ms @ ''.'' @ ns) @ [d]) @ concat post) = c # (ms @ ''.'' @ ns) @ [d]"
    using pre post c(2) d(2) by (rule trim_padded)
  then have t: "trim (concat pre @ major @ ''.'' @ minor @ concat post) = major @ ''.'' @ minor"
    by (simp add: c d)
  have m: "version_match (major @ ''.'' @ minor) = Some major"
    using major(1) minor(1) major(2) minor(2) by (rule version_match_digits)
  have l2: "level2 E ?es no_msgs =
     (if parseInt major = 1 then Inr no_msgs
      else Inr (push_error (''Unsupported major version: '' @ String_of_number E (parseInt major) @
                  '' (supported: '' @ String_of_number E 1 @ '')'') no_msgs))"
    using level2_present [OF entry body, of E no_msgs] unfolding t m by simp
  from ret opened obtain d2 where d2: "level2 E ?es no_msgs = Inr d2"
    and r: "validate_style E ?es d2 = Inr r"
    by (auto simp: validate_def validate_entries_def Let_def bind_r_Inr_iff)
  from r obtain r' where r': "validate_style E ?es no_msgs = Inr r'" and rr: "r = with_msgs d2 r'"
    using validate_style_delta [of E ?es d2] by (cases "validate_style E ?es no_msgs") simp_all
  have "\<not> prefix ''Invalid version format'' e" if "e \<in> set (errors r)" for e
  proof -
    from that have "e \<in> set (errors d2) \<or> e \<in> set (errors r')"
      by (simp add: rr with_msgs_def)
    then show ?thesis
    proof
      assume "e \<in> set (errors d2)"
      with d2 l2 have "prefix ''Unsupported major version: '' e"
        by (auto split: if_splits)
      then show ?thesis by (auto dest: prefix_same_cases)
    next
      assume "e \<in> set (errors r')"
      from validate_style_error_forms [OF r' this] show ?thesis
        by (auto dest: prefix_same_cases)
    qed
  qed
  with t m show ?thesis by blast
qed

theorem version_trimmed_witness:
  "fs_open (archive_env padded_archive (Inr plain_style)) ''a.smp'' = Opened (Some padded_archive) \<and>
   map_of (build_entries padded_archive) VERSION_FILE = Some (hd padded_archive) \<and>
   content (hd padded_archive) =
     Inr (concat [[CHR 0x20]] @ ''1'' @ ''.'' @ ''0'' @ concat [[CHR 0x0D], [CHR 0x0A], [CHR 0x0A]]) \<and>
   set [[CHR 0x20]] \<subseteq> set js_whitespace \<and>
   set [[CHR 0x0D], [CHR 0x0A], [CHR 0x0A]] \<subseteq> set js_whitespace \<and>
   list_all is_digit ''1'' \<and> list_all is_digit ''0'' \<and>
   validate (archive_env padded_archive (Inr plain_style)) ''a.smp'' =
     Inr \<lparr>errors = [], warnings = [], valid = True\<rparr> \<and>
   trim (concat [[CHR 0x20]] @ ''1'' @ ''.'' @ ''0'' @ concat [[CHR 0x0D], [CHR 0x0A], [CHR 0x0A]]) =
     ''1'' @ ''.'' @ ''0''"
proof -
  let ?E = "archive_env padded_archive (Inr plain_style)"
  have h1: "fs_open ?E ''a.smp'' = Opened (Some padded_archive)"
    by (simp add: archive_env_def env_of_def)
  have h2: "map_of (build_entries padded_archive) VERSION_FILE = Some (hd padded_archive)"
    by code_simp
  have h3: "content (hd padded_archive) =
     Inr (concat [[CHR 0x20]] @ ''1'' @ ''.'' @ ''0'' @ concat [[CHR 0x0D], [CHR 0x0A], [CHR 0x0A]])"
    by (simp add: padded_archive_def)
  have h4: "set [[CHR 0x20]] \<subseteq> set js_whitespace"
    by (simp add: js_whitespace_def)
  have h5: "set [[CHR 0x0D], [CHR 0x0A], [CHR 0x0A]] \<subseteq> set js_whitespace"
    by (simp add: js_whitespace_def)
  have h6: "''1'' \<noteq> []" "''0'' \<noteq> []"
    by simp_all
  have h7: "list_all is_digit ''1''"
    by (simp add: is_digit_def)
  have h8: "list_all is_digit ''0''"
    by (simp add: is_digit_def)
  have h9: "validate ?E ''a.smp'' = Inr \<lparr>errors = [], warnings = [], valid = True\<rparr>"
    by code_simp
  have c: "trim (concat [[CHR 0x20]] @ ''1'' @ ''.'' @ ''0'' @ concat [[CHR 0x0D], [CHR 0x0A], [CHR 0x0A]]) =
     ''1'' @ ''.'' @ ''0''"
    using version_trimmed [OF h1 h2 h3 h4 h5 h6(1) h7 h6(2) h8 h9] by (rule conjunct1)
  show ?thesis
    by (rule conjI h1 h2 h3 h4 h5 h7 h8 h9 c)+
qed

section \<open>Claims on the utilities\<close>




text \<open>
  C8. For a non-empty list of templates \<^verbatim>\<open>getTileUrl\<close> renders the template at index
  \<open>(x + y) mod length\<close>, which is within the list; in a template made of plain text around
  \<^verbatim>\<open>{z}\<close>, \<^verbatim>\<open>{x}\<close> and \<^verbatim>\<open>{y}\<close> the three are replaced by \<open>z\<close>, by \<open>x\<close>, and by
  \<open>y\<close> for the xyz scheme or \<open>2 ^ z - y - 1\<close> for tms; and the template
  \<^verbatim>\<open>https://t/{z}/{x}/{y}.mvt\<close> at \<open>x = 0\<close>, \<open>y = 0\<close>, \<open>z = 1\<close>, tms, gives
  \<^verbatim>\<open>https://t/1/0/1.mvt\<close>.
\<close>

theorem getTileUrl_renders:
  assumes "urls \<noteq> []"
  shows "getTileUrl urls c =
           Some (substitute (tile_variables c) 0
                   (urls ! ((coord_x c + coord_y c) mod length urls))) \<and>
         (coord_x c + coord_y c) mod length urls < length urls \<and>
         (\<forall>a b d e. CHR ''{'' \<notin> set a \<union> set b \<union> set d \<union> set e \<longrightarrow>
            substitute (tile_variables c) 0 (a @ ''{z}'' @ b @ ''{x}'' @ d @ ''{y}'' @ e) =
              a @ show_nat (coord_z c) @ b @ show_nat (coord_x c) @ d @
              (if coord_scheme c = TMS
               then show_int (2 ^ coord_z c - int (coord_y c) - 1)
               else show_nat (coord_y c)) @ e) \<and>
         getTileUrl [''https://t/{z}/{x}/{y}.mvt'']
           \<lparr>coord_x = 0, coord_y = 0, coord_z = 1, coord_scheme = TMS\<rparr> =
           Some ''https://t/1/0/1.mvt''"
proof -
  have y: "show_int (tile_y c) =
      (if coord_scheme c = TMS then show_int (2 ^ coord_z c - int (coord_y c) - 1)
       else show_nat (coord_y c))"
    by (simp add: tile_y_def show_int_def)
  have ex: "getTileUrl [''https://t/{z}/{x}/{y}.mvt'']
           \<lparr>coord_x = 0, coord_y = 0, coord_z = 1, coord_scheme = TMS\<rparr> =
           Some ''https://t/1/0/1.mvt''"
    by code_simp
  have sel: "getTileUrl urls c =
           Some (substitute (tile_variables c) 0
                   (urls ! ((coord_x c + coord_y c) mod length urls)))"
    using assms by (simp add: getTileUrl_def)
  have idx: "(coord_x c + coord_y c) mod length urls < length urls"
    using assms by simp
  have shape: "\<forall>a b d e. CHR ''{'' \<notin> set a \<union> set b \<union> set d \<union> set e \<longrightarrow>
            substitute (tile_variables c) 0 (a @ ''{z}'' @ b @ ''{x}'' @ d @ ''{y}'' @ e) =
              a @ show_nat (coord_z c) @ b @ show_nat (coord_x c) @ d @
              (if coord_scheme c = TMS
               then show_int (2 ^ coord_z c - int (coord_y c) - 1)
               else show_nat (coord_y c)) @ e"
  proof (intro allI impI)
    fix a b d e :: string
    assume "CHR ''{'' \<notin> set a \<union> set b \<union> set d \<union> set e"
    from substitute_zxy [OF this, of c]
    show "substitute (tile_variables c) 0 (a @ ''{z}'' @ b @ ''{x}'' @ d @ ''{y}'' @ e) =
              a @ show_nat (coord_z c) @ b @ show_nat (coord_x c) @ d @
              (if coord_scheme c = TMS
               then show_int (2 ^ coord_z c - int (coord_y c) - 1)
               else show_nat (coord_y c)) @ e"
      by (simp only: y)
  qed
  from sel idx shape ex show ?thesis by blast
qed

theorem getTileUrl_renders_witness:
  "[''https://a/{z}/{x}/{y}'', ''https://b/{z}/{x}/{y}''] \<noteq> [] \<and>
   getTileUrl [''https://a/{z}/{x}/{y}'', ''https://b/{z}/{x}/{y}'']
     \<lparr>coord_x = 1, coord_y = 0, coord_z = 0, coord_scheme = XYZ\<rparr> = Some ''https://b/0/1/0''"
proof -
  have ne: "[''https://a/{z}/{x}/{y}'', ''https://b/{z}/{x}/{y}''] \<noteq> []" by simp
  have s: "substitute (tile_variables \<lparr>coord_x = 1, coord_y = 0, coord_z = 0, coord_scheme = XYZ\<rparr>) 0
     ([''https://a/{z}/{x}/{y}'', ''https://b/{z}/{x}/{y}''] ! ((1 + 0) mod 2)) = ''https://b/0/1/0''"
    by code_simp
  from getTileUrl_renders [OF ne, of "\<lparr>coord_x = 1, coord_y = 0, coord_z = 0, coord_scheme = XYZ\<rparr>"] s
  show ?thesis by simp
qed

end
